theory Spec2Isabelle
  imports Main
begin

section \<open>Element trees\<close>

text \<open>
  Both documents are \<^verbatim>\<open>xml.etree.ElementTree\<close> trees: an element has a tag, an
  attribute dictionary (kept in insertion order) and an ordered list of children.
\<close>

datatype xml = Elem (tag: string) (attribs: "(string \<times> string) list") (children: "xml list")

text \<open>\<^verbatim>\<open>ET.SubElement(parent, ...)\<close> appends the new element to the parent's children.\<close>

definition SubElement :: "xml \<Rightarrow> xml \<Rightarrow> xml" where
  "SubElement parent child = Elem (tag parent) (attribs parent) (children parent @ [child])"

text \<open>\<^verbatim>\<open>element.set(key, value)\<close>: replace the value of an existing key, else add the key last.\<close>

fun set_item :: "(string \<times> string) list \<Rightarrow> string \<Rightarrow> string \<Rightarrow> (string \<times> string) list" where
  "set_item [] k v = [(k, v)]"
| "set_item ((k', v') # kvs) k v = (if k' = k then (k, v) # kvs else (k', v') # set_item kvs k v)"

definition set_attrib :: "xml \<Rightarrow> string \<Rightarrow> string \<Rightarrow> xml" where
  "set_attrib e k v = Elem (tag e) (set_item (attribs e) k v) (children e)"

text \<open>\<^verbatim>\<open>element.findall(t)\<close>: the direct children with tag \<open>t\<close>, in document order.\<close>

definition findall :: "string \<Rightarrow> xml \<Rightarrow> xml list" where
  "findall t e = filter (\<lambda>c. tag c = t) (children e)"

text \<open>\<^verbatim>\<open>element.find(t)\<close>: the first direct child with tag \<open>t\<close>, or \<^verbatim>\<open>None\<close>.\<close>

definition find_first :: "string \<Rightarrow> xml \<Rightarrow> xml option" where
  "find_first t e = (case findall t e of [] \<Rightarrow> None | c # _ \<Rightarrow> Some c)"

text \<open>All proper descendants of an element, in document order (pre-order).\<close>

fun descendants :: "xml \<Rightarrow> xml list" where
  "descendants (Elem t a cs) = concat (map (\<lambda>c. c # descendants c) cs)"

text \<open>\<^verbatim>\<open>element.findall(".//t")\<close>: the descendants with tag \<open>t\<close>, at every depth, in document order.\<close>

definition findall_desc :: "string \<Rightarrow> xml \<Rightarrow> xml list" where
  "findall_desc t e = filter (\<lambda>c. tag c = t) (descendants e)"

section \<open>Python values\<close>

text \<open>
  The exceptions the converter can meet: \<^verbatim>\<open>float\<close> of a string that is no number,
  \<^verbatim>\<open>float\<close> of \<^verbatim>\<open>None\<close>, \<^verbatim>\<open>int\<close> of an infinity.
\<close>

datatype error = ValueError | TypeError | OverflowError

text \<open>Truth value of an attribute read: \<^verbatim>\<open>None\<close> and the empty string are false.\<close>

definition truthy :: "string option \<Rightarrow> bool" where
  "truthy v = (case v of None \<Rightarrow> False | Some s \<Rightarrow> s \<noteq> [])"

text \<open>\<^verbatim>\<open>v or d\<close> for an attribute read \<open>v\<close> and a string \<open>d\<close>.\<close>

definition or_str :: "string option \<Rightarrow> string \<Rightarrow> string" where
  "or_str v d = (case v of None \<Rightarrow> d | Some s \<Rightarrow> if s \<noteq> [] then s else d)"

text \<open>\<^verbatim>\<open>str(n)\<close> for an integer: decimal digits, most significant first.\<close>

definition digit_char :: "nat \<Rightarrow> char" where
  "digit_char d = ''0123456789'' ! d"

fun str_nat :: "nat \<Rightarrow> string" where
  "str_nat n = (if n < 10 then [digit_char n] else str_nat (n div 10) @ [digit_char (n mod 10)])"

declare str_nat.simps [simp del]

definition str_int :: "int \<Rightarrow> string" where
  "str_int i = (if i < 0 then CHR ''-'' # str_nat (nat (- i)) else str_nat (nat i))"

text \<open>
  The numbers of the program are Python ints and floats. Floats are kept abstract in a
  type \<open>'f\<close>; their operations are fields of the environment below. \<open>pyval\<close> are the
  values that reach \<^verbatim>\<open>float(...)\<close> or a truth test: an attribute read or a float.
  \<open>pynum\<close> are the numbers that are subtracted and formatted: \<^verbatim>\<open>sec_2_ms\<close> returns
  the int \<^verbatim>\<open>0\<close> or a float.
\<close>

datatype 'f pyval = PNone | PStr string | PFloat 'f

datatype 'f pynum = NInt int | NFloat 'f

definition of_attr :: "string option \<Rightarrow> 'f pyval" where
  "of_attr v = (case v of None \<Rightarrow> PNone | Some s \<Rightarrow> PStr s)"

section \<open>The environment: helper modules and built-ins\<close>

text \<open>The dictionary \<^verbatim>\<open>get_location\<close> returns, read at its three keys.\<close>

record location_data =
  DIR :: string
  FILE :: string
  VOLUME :: string

text \<open>
  The converter imports its helpers from \<^verbatim>\<open>utils\<close> and \<^verbatim>\<open>consts\<close>, draws
  identifiers from \<^verbatim>\<open>uuid.uuid4\<close> and computes with Python floats. These are
  parameters of the model: every theorem below holds for all of them.
  \<^item> \<open>uuid4_hex n\<close> is the hex string of the \<open>n\<close>-th identifier drawn;
  \<^item> \<open>float_of_str s\<close> is \<^verbatim>\<open>float(s)\<close>, \<open>None\<close> when it raises \<^verbatim>\<open>ValueError\<close>;
  \<^item> \<open>float_of_int i\<close> is \<^verbatim>\<open>float(i)\<close>, also the float literal with that value;
  \<^item> \<open>float_str x\<close> is \<^verbatim>\<open>str(x)\<close>, \<open>float_fmt6 x\<close> is \<^verbatim>\<open>f"{x:.6f}"\<close>;
  \<^item> \<open>float_truthy x\<close> is the truth value of \<open>x\<close> (false at zero);
  \<^item> \<open>float_to_int x\<close> is \<^verbatim>\<open>int(x)\<close>, which raises at an infinity or a NaN.
\<close>

record 'f env =
  format_date :: "string \<Rightarrow> string"
  get_tonalikey :: "string \<Rightarrow> string"
  get_track_color :: "string \<Rightarrow> string"
  get_cue_type :: "string option \<Rightarrow> string"
  get_location :: "string option \<Rightarrow> location_data"
  set_cue_color :: "xml \<Rightarrow> string \<Rightarrow> string \<Rightarrow> string \<Rightarrow> xml"
  today :: string
  KEY_TO_CODE :: "string \<rightharpoonup> string"
  uuid4_hex :: "nat \<Rightarrow> string"
  float_of_str :: "string \<Rightarrow> 'f option"
  float_of_int :: "int \<Rightarrow> 'f"
  float_mul :: "'f \<Rightarrow> 'f \<Rightarrow> 'f"
  float_sub :: "'f \<Rightarrow> 'f \<Rightarrow> 'f"
  float_truthy :: "'f \<Rightarrow> bool"
  float_str :: "'f \<Rightarrow> string"
  float_fmt6 :: "'f \<Rightarrow> string"
  float_to_int :: "'f \<Rightarrow> error + int"

text \<open>
  Modelled from the spec: \<^verbatim>\<open>get_attribute\<close> of \<^verbatim>\<open>utils\<close> is not among the sources.
  It reads one field of an element's flat attribute bag; a missing attribute reads as
  \<open>None\<close>, which the converter treats like the empty string wherever it tests the value.
\<close>

definition get_attribute :: "xml \<Rightarrow> string \<Rightarrow> string option" where
  "get_attribute e name = map_of (attribs e) name"

text \<open>\<^verbatim>\<open>float(v)\<close>.\<close>

definition py_float :: "'f env \<Rightarrow> 'f pyval \<Rightarrow> error + 'f" where
  "py_float env v =
     (case v of
        PNone \<Rightarrow> Inl TypeError
      | PStr s \<Rightarrow> (case float_of_str env s of None \<Rightarrow> Inl ValueError | Some x \<Rightarrow> Inr x)
      | PFloat x \<Rightarrow> Inr x)"

text \<open>The truth value of \<open>v\<close>.\<close>

definition py_bool :: "'f env \<Rightarrow> 'f pyval \<Rightarrow> bool" where
  "py_bool env v =
     (case v of
        PNone \<Rightarrow> False
      | PStr s \<Rightarrow> s \<noteq> []
      | PFloat x \<Rightarrow> float_truthy env x)"

text \<open>\<^verbatim>\<open>a - b\<close> on numbers; an int operand of a float subtraction is converted first.\<close>

definition num_sub :: "'f env \<Rightarrow> 'f pynum \<Rightarrow> 'f pynum \<Rightarrow> 'f pynum" where
  "num_sub env a b =
     (case (a, b) of
        (NInt i, NInt j) \<Rightarrow> NInt (i - j)
      | (NInt i, NFloat y) \<Rightarrow> NFloat (float_sub env (float_of_int env i) y)
      | (NFloat x, NInt j) \<Rightarrow> NFloat (float_sub env x (float_of_int env j))
      | (NFloat x, NFloat y) \<Rightarrow> NFloat (float_sub env x y))"

text \<open>\<^verbatim>\<open>f"{v:.6f}"\<close>; an int is formatted as the float of the same value.\<close>

definition num_fmt6 :: "'f env \<Rightarrow> 'f pynum \<Rightarrow> string" where
  "num_fmt6 env v =
     (case v of
        NInt i \<Rightarrow> float_fmt6 env (float_of_int env i)
      | NFloat x \<Rightarrow> float_fmt6 env x)"

section \<open>The converter object\<close>

text \<open>The dictionary \<^verbatim>\<open>self.track_info\<close>, one field per key.\<close>

record 'f track_info =
  id' :: string
  title :: string
  artist :: string
  album :: string
  key :: string
  bpm :: 'f
  color :: string
  genre :: string
  playtime :: string
  playcount :: string
  bitrate :: 'f
  import_date :: string
  modif_date :: string
  last_played :: string
  ranking :: string
  filesize :: string
  location :: string
  comments :: string

text \<open>
  The fields of \<^verbatim>\<open>Rekordbox2Traktor\<close> that live across calls. \<^verbatim>\<open>self.root\<close>,
  \<^verbatim>\<open>self.track\<close> and \<^verbatim>\<open>self.track_info\<close> hold the element or record under
  construction: each is written before it is read, and the functions below take and
  return it as an argument. \<^verbatim>\<open>self.cues\<close> is never read. \<open>uuid_count\<close> counts the
  calls of \<^verbatim>\<open>uuid.uuid4\<close> made so far.
\<close>

record converter =
  cue_index :: int
  track_index :: int
  tracks :: "string list"
  track_id_map :: "string \<rightharpoonup> string"
  uuid_count :: nat

definition generate_audio_id :: string where
  "generate_audio_id = ''AWAWZmRENDMzMzf//////////////////////f/////////////////////s/////////////////////5b///7//////////+//////af/////////////////////+///////////f/////////1n/////////9Y///////////f/////////+r/7///////9XYzMzM0MyMzJUMzNDNDMzRDn//////////////////////f/////////////////////e/////////////////////3r+/+////////7u7u/v////vf//7////////v/+//////+FZneYYQAAAA==''"

section \<open>Track mapping\<close>

definition safe_float :: "'f env \<Rightarrow> string \<Rightarrow> 'f \<Rightarrow> error + 'f" where
  "safe_float env v dflt =
     (case (if v \<noteq> [] then py_float env (PStr v) else Inr dflt) of
        Inr x \<Rightarrow> Inr x
      | Inl ValueError \<Rightarrow> Inr dflt
      | Inl TypeError \<Rightarrow> Inr dflt
      | Inl e \<Rightarrow> Inl e)"

definition safe_get_attr :: "xml \<Rightarrow> string \<Rightarrow> string \<Rightarrow> string" where
  "safe_get_attr track attr_name dflt = or_str (get_attribute track attr_name) dflt"

definition set_track_info :: "'f env \<Rightarrow> xml \<Rightarrow> converter \<Rightarrow> error + ('f track_info \<times> converter)" where
  "set_track_info env track st =
     (let avg_bpm = safe_get_attr track ''AverageBpm'' ''120.0'';
          bit_rate = safe_get_attr track ''BitRate'' ''320'';
          tid = get_attribute track ''TrackId'';
          st1 = (if truthy tid then st else st\<lparr>uuid_count := Suc (uuid_count st)\<rparr>)
      in case safe_float env avg_bpm (float_of_int env 120) of
           Inl e \<Rightarrow> Inl e
         | Inr b \<Rightarrow>
             (case safe_float env bit_rate (float_of_int env 320) of
                Inl e \<Rightarrow> Inl e
              | Inr r \<Rightarrow>
                  Inr (\<lparr>id' = or_str tid (take 8 (uuid4_hex env (uuid_count st))),
                        title = safe_get_attr track ''Name'' [],
                        artist = safe_get_attr track ''Artist'' [],
                        album = safe_get_attr track ''Album'' [],
                        key = get_tonalikey env (safe_get_attr track ''Tonality'' []),
                        bpm = b,
                        color = get_track_color env (safe_get_attr track ''Colour'' []),
                        genre = safe_get_attr track ''Genre'' [],
                        playtime = safe_get_attr track ''TotalTime'' ''0'',
                        playcount = safe_get_attr track ''PlayCount'' ''0'',
                        bitrate = float_mul env r (float_of_int env 1000),
                        import_date = format_date env (safe_get_attr track ''DateAdded'' []),
                        modif_date = format_date env (safe_get_attr track ''DateModified'' []),
                        last_played = format_date env (safe_get_attr track ''LastPlayed'' []),
                        ranking = safe_get_attr track ''Rating'' ''0'',
                        filesize = safe_get_attr track ''Size'' ''0'',
                        location = safe_get_attr track ''Location'' [],
                        comments = safe_get_attr track ''Comments'' []\<rparr>, st1)))"

definition sec_2_ms :: "'f env \<Rightarrow> 'f pyval \<Rightarrow> error + 'f pynum" where
  "sec_2_ms env time_sec =
     (if py_bool env time_sec
      then (case py_float env time_sec of
              Inl e \<Rightarrow> Inl e
            | Inr x \<Rightarrow> Inr (NFloat (float_mul env x (float_of_int env 1000))))
      else Inr (NInt 0))"

section \<open>Track emission\<close>

text \<open>Each \<open>add_\<close> function takes \<^verbatim>\<open>self.track\<close> and returns it with the new child.\<close>

definition add_location :: "'f env \<Rightarrow> 'f track_info \<Rightarrow> xml \<Rightarrow> xml" where
  "add_location env info trk =
     (let location_data = get_location env (Some (location info))
      in SubElement trk
           (Elem ''LOCATION''
              [(''DIR'', DIR location_data), (''FILE'', FILE location_data),
               (''VOLUME'', VOLUME location_data), (''VOLUMEID'', VOLUME location_data)] []))"

definition add_album :: "'f track_info \<Rightarrow> xml \<Rightarrow> xml" where
  "add_album info trk =
     (if album info \<noteq> [] then SubElement trk (Elem ''ALBUM'' [(''TITLE'', album info)] []) else trk)"

definition add_modification_info :: "xml \<Rightarrow> xml" where
  "add_modification_info trk = SubElement trk (Elem ''MODIFICATION_INFO'' [(''AUTHOR_TYPE'', ''user'')] [])"

definition add_info :: "'f env \<Rightarrow> 'f track_info \<Rightarrow> xml \<Rightarrow> error + xml" where
  "add_info env info trk =
     (let playtime' = (if playtime info \<noteq> [] then playtime info else ''0'');
          key_code = (case KEY_TO_CODE env (key info) of None \<Rightarrow> ''10d'' | Some c \<Rightarrow> c)
      in case (case py_float env (PStr playtime') of
                 Inr x \<Rightarrow> Inr x
               | Inl ValueError \<Rightarrow> Inr (float_of_int env 0)
               | Inl TypeError \<Rightarrow> Inr (float_of_int env 0)
               | Inl e \<Rightarrow> Inl e) of
           Inl e \<Rightarrow> Inl e
         | Inr playtime_float \<Rightarrow>
             (case float_to_int env (bitrate info) of
                Inl e \<Rightarrow> Inl e
              | Inr b \<Rightarrow>
                  Inr (SubElement trk
                         (Elem ''INFO''
                            ([(''BITRATE'', str_int b),
                              (''GENRE'', genre info),
                              (''KEY'', key_code),
                              (''PLAYCOUNT'', if playcount info \<noteq> [] then playcount info else ''0''),
                              (''PLAYTIME'', playtime'),
                              (''PLAYTIME_FLOAT'', float_fmt6 env playtime_float),
                              (''RANKING'', if ranking info \<noteq> [] then ranking info else ''0''),
                              (''IMPORT_DATE'', import_date info),
                              (''LAST_PLAYED'', last_played info),
                              (''FLAGS'', ''12''),
                              (''COLOR'', color info)]
                             @ (if comments info \<noteq> [] then [(''COMMENT'', comments info)] else [])) []))))"

definition add_tempo :: "'f env \<Rightarrow> 'f track_info \<Rightarrow> xml \<Rightarrow> xml" where
  "add_tempo env info trk =
     SubElement trk
       (Elem ''TEMPO'' [(''BPM'', float_fmt6 env (bpm info)), (''BPM_QUALITY'', ''100.000000'')] [])"

definition add_loudness :: "xml \<Rightarrow> xml" where
  "add_loudness trk =
     SubElement trk
       (Elem ''LOUDNESS'' [(''PEAK_DB'', ''-1.0''), (''PERCEIVED_DB'', ''-1.0''), (''ANALYZED_DB'', ''-1.0'')] [])"

definition add_musical_key :: "'f track_info \<Rightarrow> xml \<Rightarrow> xml" where
  "add_musical_key info trk = SubElement trk (Elem ''MUSICAL_KEY'' [(''VALUE'', key info)] [])"

text \<open>The beat marker: a \<^verbatim>\<open>CUE_V2\<close> of type 4 with one \<^verbatim>\<open>GRID\<close> child.\<close>

definition beatmarker :: "'f env \<Rightarrow> 'f pynum \<Rightarrow> 'f \<Rightarrow> bool \<Rightarrow> xml" where
  "beatmarker env start_ms bpm' is_autogrid =
     Elem ''CUE_V2''
       [(''NAME'', if is_autogrid then ''AutoGrid'' else ''Beat Marker''),
        (''DISPL_ORDER'', ''0''),
        (''TYPE'', ''4''),
        (''START'', num_fmt6 env start_ms),
        (''LEN'', ''0.000000''),
        (''REPEATS'', ''-1''),
        (''HOTCUE'', ''-1'')]
       [Elem ''GRID'' [(''BPM'', float_fmt6 env bpm')] []]"

definition add_beatmarker :: "'f env \<Rightarrow> xml \<Rightarrow> 'f pynum \<Rightarrow> 'f \<Rightarrow> bool \<Rightarrow> xml" where
  "add_beatmarker env trk start_ms bpm' is_autogrid =
     SubElement trk (beatmarker env start_ms bpm' is_autogrid)"

text \<open>The grid anchor: a \<^verbatim>\<open>CUE_V2\<close> of type 0 in hot-cue slot 0.\<close>

definition autogrid :: "'f env \<Rightarrow> 'f pynum \<Rightarrow> xml" where
  "autogrid env start_ms =
     Elem ''CUE_V2''
       [(''NAME'', ''AutoGrid''),
        (''DISPL_ORDER'', ''0''),
        (''TYPE'', ''0''),
        (''START'', num_fmt6 env start_ms),
        (''LEN'', ''0.000000''),
        (''REPEATS'', ''-1''),
        (''HOTCUE'', ''0''),
        (''COLOR'', ''#FFFFFF'')] []"

definition add_autogrid :: "'f env \<Rightarrow> xml \<Rightarrow> 'f pynum \<Rightarrow> xml" where
  "add_autogrid env trk start_ms = SubElement trk (autogrid env start_ms)"

section \<open>Cue translation\<close>

definition add_cue :: "'f env \<Rightarrow> xml \<Rightarrow> xml \<Rightarrow> converter \<Rightarrow> error + (xml \<times> converter)" where
  "add_cue env position_mark trk st =
     (let cue_type = get_attribute position_mark ''Type'';
          start_sec = get_attribute position_mark ''Start'';
          end_sec = get_attribute position_mark ''End'';
          num = get_attribute position_mark ''Num'';
          name = or_str (get_attribute position_mark ''Name'') ''n.n.''
      in case sec_2_ms env (of_attr start_sec) of
           Inl e \<Rightarrow> Inl e
         | Inr start_ms \<Rightarrow>
             (case (if truthy end_sec
                    then (case sec_2_ms env (of_attr end_sec) of
                            Inl e \<Rightarrow> Inl e
                          | Inr end_ms \<Rightarrow> Inr (num_sub env end_ms start_ms))
                    else Inr (NInt 0)) of
                Inl e \<Rightarrow> Inl e
              | Inr loop_length \<Rightarrow>
                  (let hotcue = (if truthy num \<and> num \<noteq> Some ''-1'' then or_str num []
                                 else str_int (cue_index st));
                       cue = Elem ''CUE_V2''
                               [(''NAME'', name),
                                (''DISPL_ORDER'', ''0''),
                                (''TYPE'', get_cue_type env cue_type),
                                (''START'', num_fmt6 env start_ms),
                                (''LEN'', num_fmt6 env loop_length),
                                (''REPEATS'', ''-1''),
                                (''HOTCUE'', hotcue)] [];
                       r = get_attribute position_mark ''Red'';
                       g = get_attribute position_mark ''Green'';
                       b = get_attribute position_mark ''Blue'';
                       cue' = (if truthy r \<and> truthy g \<and> truthy b
                               then set_cue_color env cue (or_str r []) (or_str g []) (or_str b [])
                               else cue)
                   in Inr (SubElement trk cue', st\<lparr>cue_index := cue_index st + 1\<rparr>))))"

text \<open>The loop of \<^verbatim>\<open>process_cues\<close> over the position marks.\<close>

fun process_cues_loop :: "'f env \<Rightarrow> xml list \<Rightarrow> xml \<Rightarrow> converter \<Rightarrow> error + (xml \<times> converter)" where
  "process_cues_loop env [] trk st = Inr (trk, st)"
| "process_cues_loop env (position_mark # rest) trk st =
     (if get_attribute position_mark ''Name'' = Some ''AutoGrid''
      then process_cues_loop env rest trk st
      else (case add_cue env position_mark trk st of
              Inl e \<Rightarrow> Inl e
            | Inr (trk', st') \<Rightarrow> process_cues_loop env rest trk' st'))"

definition process_cues :: "'f env \<Rightarrow> xml \<Rightarrow> xml \<Rightarrow> converter \<Rightarrow> error + (xml \<times> converter)" where
  "process_cues env track trk st = process_cues_loop env (findall ''POSITION_MARK'' track) trk st"

section \<open>Beat-grid reconstruction\<close>

text \<open>
  The three lines both marker branches of \<^verbatim>\<open>process_tempo\<close> start with: the start
  in milliseconds and the tempo of one \<^verbatim>\<open>TEMPO\<close> element. Either \<^verbatim>\<open>float\<close> raises
  on a string that is no number.
\<close>

definition read_tempo :: "'f env \<Rightarrow> 'f track_info \<Rightarrow> xml \<Rightarrow> error + ('f pynum \<times> 'f)" where
  "read_tempo env info tempo =
     (case py_float env (PStr (or_str (get_attribute tempo ''Inizio'') ''0'')) of
        Inl e \<Rightarrow> Inl e
      | Inr start_sec \<Rightarrow>
          (case py_float env (PStr (or_str (get_attribute tempo ''Bpm'') (float_str env (bpm info)))) of
             Inl e \<Rightarrow> Inl e
           | Inr bpm' \<Rightarrow>
               (case sec_2_ms env (PFloat start_sec) of
                  Inl e \<Rightarrow> Inl e
                | Inr start_ms \<Rightarrow> Inr (start_ms, bpm'))))"

text \<open>The loop of the last branch: \<open>i\<close> is the index \<^verbatim>\<open>enumerate\<close> gives.\<close>

fun process_tempo_loop :: "'f env \<Rightarrow> 'f track_info \<Rightarrow> nat \<Rightarrow> xml list \<Rightarrow> xml \<Rightarrow> error + xml" where
  "process_tempo_loop env info i [] trk = Inr trk"
| "process_tempo_loop env info i (tempo # rest) trk =
     (case read_tempo env info tempo of
        Inl e \<Rightarrow> Inl e
      | Inr (start_ms, bpm') \<Rightarrow>
          (let is_autogrid = (i = 0);
               trk1 = add_beatmarker env trk start_ms bpm' is_autogrid;
               trk2 = (if is_autogrid then add_autogrid env trk1 start_ms else trk1)
           in process_tempo_loop env info (Suc i) rest trk2))"

definition process_tempo :: "'f env \<Rightarrow> 'f track_info \<Rightarrow> xml \<Rightarrow> xml \<Rightarrow> error + xml" where
  "process_tempo env info track trk =
     (case findall ''TEMPO'' track of
        [] \<Rightarrow> Inr (add_autogrid env (add_beatmarker env trk (NInt 0) (bpm info) True) (NInt 0))
      | [tempo] \<Rightarrow>
          (case read_tempo env info tempo of
             Inl e \<Rightarrow> Inl e
           | Inr (start_ms, bpm') \<Rightarrow>
               Inr (add_autogrid env (add_beatmarker env trk start_ms bpm' True) start_ms))
      | tempo_elements \<Rightarrow> process_tempo_loop env info 0 tempo_elements trk)"

section \<open>One track\<close>

definition reset_track :: "converter \<Rightarrow> converter" where
  "reset_track st = st\<lparr>cue_index := 1\<rparr>"

text \<open>
  The \<^verbatim>\<open>ENTRY\<close> element \<^verbatim>\<open>add_entry\<close> creates. The source attaches it to the
  collection at once and fills it afterwards; \<open>process_track\<close> attaches the filled entry.
\<close>

definition add_entry :: "'f env \<Rightarrow> 'f track_info \<Rightarrow> xml" where
  "add_entry env info =
     Elem ''ENTRY''
       [(''MODIFIED_DATE'', if modif_date info \<noteq> [] then modif_date info else today env),
        (''MODIFIED_TIME'', ''0''),
        (''AUDIO_ID'', generate_audio_id),
        (''TITLE'', title info),
        (''ARTIST'', artist info)] []"

definition process_track :: "'f env \<Rightarrow> xml \<Rightarrow> xml \<Rightarrow> converter \<Rightarrow> error + (bool \<times> xml \<times> converter)" where
  "process_track env track collection st =
     (case set_track_info env track (reset_track st) of
        Inl e \<Rightarrow> Inl e
      | Inr (info, st1) \<Rightarrow>
          (case add_info env info (add_modification_info (add_album info (add_location env info (add_entry env info)))) of
             Inl e \<Rightarrow> Inl e
           | Inr trk \<Rightarrow>
               (case process_tempo env info track (add_musical_key info (add_loudness (add_tempo env info trk))) of
                  Inl e \<Rightarrow> Inl e
                | Inr trk' \<Rightarrow>
                    (case process_cues env track trk' st1 of
                       Inl e \<Rightarrow> Inl e
                     | Inr (trk'', st2) \<Rightarrow> Inr (True, SubElement collection trk'', st2)))))"

section \<open>Playlist translation\<close>

text \<open>
  The loop over the \<^verbatim>\<open>TRACK\<close> references of a playlist: a reference whose
  \<^verbatim>\<open>Key\<close> is non-empty and a key of \<^verbatim>\<open>track_id_map\<close> adds an \<^verbatim>\<open>ENTRY\<close>
  holding a \<^verbatim>\<open>PRIMARYKEY\<close>; any other reference adds nothing.
\<close>

fun playlist_entries_loop :: "(string \<rightharpoonup> string) \<Rightarrow> xml list \<Rightarrow> xml \<Rightarrow> xml" where
  "playlist_entries_loop m [] playlist = playlist"
| "playlist_entries_loop m (track_elem # rest) playlist =
     (let track_id = get_attribute track_elem ''Key''
      in playlist_entries_loop m rest
           (if truthy track_id
            then (case m (or_str track_id []) of
                    None \<Rightarrow> playlist
                  | Some file_path \<Rightarrow>
                      SubElement playlist
                        (Elem ''ENTRY'' [] [Elem ''PRIMARYKEY'' [(''TYPE'', ''TRACK''), (''KEY'', file_path)] []]))
            else playlist))"

text \<open>
  \<open>process_playlist_node\<close> takes the parent \<^verbatim>\<open>SUBNODES\<close> element and the converter
  and returns both; \<open>process_child_nodes\<close> is the loop over the child nodes of a folder,
  which also carries \<^verbatim>\<open>child_count\<close>.
\<close>

function process_playlist_node :: "'f env \<Rightarrow> xml \<Rightarrow> xml \<times> converter \<Rightarrow> xml \<times> converter"
  and process_child_nodes :: "'f env \<Rightarrow> xml list \<Rightarrow> xml \<times> converter \<times> int \<Rightarrow> xml \<times> converter \<times> int"
where
  "process_playlist_node env rekordbox_node (parent_subnodes, st) =
     (let node_type = get_attribute rekordbox_node ''Type'';
          node_name = get_attribute rekordbox_node ''Name''
      in if \<not> truthy node_name then (parent_subnodes, st)
         else if node_type = Some ''0'' then
           (case process_child_nodes env (findall ''NODE'' rekordbox_node) (Elem ''SUBNODES'' [] [], st, 0) of
              (subnodes, st', child_count) \<Rightarrow>
                (SubElement parent_subnodes
                   (Elem ''NODE'' [(''TYPE'', ''FOLDER''), (''NAME'', or_str node_name [])]
                      [set_attrib subnodes ''COUNT'' (str_int child_count)]),
                 st'))
         else if node_type = Some ''1'' then
           (let track_elements = findall ''TRACK'' rekordbox_node
            in if track_elements = [] then (parent_subnodes, st)
               else (SubElement parent_subnodes
                       (Elem ''NODE'' [(''TYPE'', ''PLAYLIST''), (''NAME'', or_str node_name [])]
                          [playlist_entries_loop (track_id_map st) track_elements
                             (Elem ''PLAYLIST''
                                [(''ENTRIES'', str_int (int (length track_elements))),
                                 (''TYPE'', ''LIST''),
                                 (''UUID'', uuid4_hex env (uuid_count st))] [])]),
                     st\<lparr>uuid_count := Suc (uuid_count st)\<rparr>))
         else (parent_subnodes, st))"
| "process_child_nodes env [] acc = acc"
| "process_child_nodes env (child # rest) (subnodes, st, child_count) =
     (case process_playlist_node env child (subnodes, st) of
        (subnodes', st') \<Rightarrow> process_child_nodes env rest (subnodes', st', child_count + 1))"
  by pat_completeness auto
termination
proof (relation "measure (\<lambda>x. case x of Inl (env, n, p) \<Rightarrow> 2 * size n | Inr (env, ns, a) \<Rightarrow> 2 * size_list size ns + 1)")
  show "wf (measure (\<lambda>x. case x of Inl (env, n, p) \<Rightarrow> 2 * size n | Inr (env :: 'f env, ns, a) \<Rightarrow> 2 * size_list size ns + 1))"
    by simp
next
  fix env :: "'f env" and rekordbox_node :: xml and parent_subnodes :: xml and st :: converter
  have le: "size_list size (filter P xs) \<le> size_list size xs" for P and xs :: "xml list"
    by (induction xs) auto
  have "size_list size (findall ''NODE'' rekordbox_node) < size rekordbox_node"
    using le [of "\<lambda>c. tag c = ''NODE''" "children rekordbox_node"]
    by (cases rekordbox_node) (simp add: findall_def)
  then show "(Inr (env, findall ''NODE'' rekordbox_node, Elem ''SUBNODES'' [] [], st, 0),
         Inl (env, rekordbox_node, parent_subnodes, st))
        \<in> measure (\<lambda>x. case x of Inl (env, n, p) \<Rightarrow> 2 * size n | Inr (env, ns, a) \<Rightarrow> 2 * size_list size ns + 1)"
    by simp
qed auto

declare process_playlist_node.simps [simp del]

definition playlists_section :: "xml list \<Rightarrow> xml" where
  "playlists_section subnodes =
     Elem ''PLAYLISTS'' [] [Elem ''NODE'' [(''TYPE'', ''FOLDER''), (''NAME'', ''$ROOT'')] subnodes]"

definition add_default_playlist :: "'f env \<Rightarrow> xml \<Rightarrow> converter \<Rightarrow> xml \<times> converter" where
  "add_default_playlist env root st =
     (SubElement root
        (playlists_section
           [Elem ''SUBNODES'' [(''COUNT'', ''1'')]
              [Elem ''NODE'' [(''TYPE'', ''PLAYLIST''), (''NAME'', ''collection'')]
                 [Elem ''PLAYLIST''
                    [(''ENTRIES'', str_int (int (length (tracks st)))),
                     (''TYPE'', ''LIST''),
                     (''UUID'', uuid4_hex env (uuid_count st))]
                    (map (\<lambda>track_loc.
                            Elem ''ENTRY'' [] [Elem ''PRIMARYKEY'' [(''TYPE'', ''TRACK''), (''KEY'', track_loc)] []])
                       (tracks st))]]]),
      st\<lparr>uuid_count := Suc (uuid_count st)\<rparr>)"

text \<open>
  When the \<^verbatim>\<open>PLAYLISTS\<close> section has no \<^verbatim>\<open>NODE\<close>, the section created first stays
  in the output, with an empty \<^verbatim>\<open>SUBNODES\<close>, before the default one.
\<close>

definition process_playlists :: "'f env \<Rightarrow> xml \<Rightarrow> xml \<Rightarrow> converter \<Rightarrow> xml \<times> converter" where
  "process_playlists env rekordbox_root root st =
     (case find_first ''PLAYLISTS'' rekordbox_root of
        None \<Rightarrow> add_default_playlist env root st
      | Some playlists \<Rightarrow>
          (case find_first ''NODE'' playlists of
             Some root_node \<Rightarrow>
               (case process_child_nodes env (findall ''NODE'' root_node) (Elem ''SUBNODES'' [] [], st, 0) of
                  (subnodes, st', child_count) \<Rightarrow>
                    (SubElement root (playlists_section [set_attrib subnodes ''COUNT'' (str_int child_count)]), st'))
           | None \<Rightarrow>
               add_default_playlist env (SubElement root (playlists_section [Elem ''SUBNODES'' [] []])) st))"

section \<open>The whole conversion\<close>

definition add_head :: "xml \<Rightarrow> xml" where
  "add_head root =
     SubElement root (Elem ''HEAD'' [(''COMPANY'', ''www.native-instruments.com''), (''PROGRAM'', ''Traktor Pro 4'')] [])"

definition add_collection :: "xml list \<Rightarrow> xml" where
  "add_collection entries = Elem ''COLLECTION'' [(''ENTRIES'', str_int (int (length entries)))] []"

definition add_sets :: "xml \<Rightarrow> xml" where
  "add_sets root = SubElement root (Elem ''SETS'' [(''ENTRIES'', str_int 0)] [])"

definition add_indexing :: "xml \<Rightarrow> xml" where
  "add_indexing root = SubElement root (Elem ''INDEXING'' [] [])"

text \<open>The path \<^verbatim>\<open>convert_xml_to_nml\<close> builds for a track: volume, directory, file name.\<close>

definition file_path_of :: "'f env \<Rightarrow> xml \<Rightarrow> string" where
  "file_path_of env track =
     (let loc = get_location env (get_attribute track ''Location'')
      in VOLUME loc @ DIR loc @ FILE loc)"

text \<open>The loop over the tracks: it fills the collection, \<^verbatim>\<open>tracks\<close> and \<^verbatim>\<open>track_id_map\<close>.\<close>

fun process_tracks_loop :: "'f env \<Rightarrow> xml list \<Rightarrow> xml \<Rightarrow> converter \<Rightarrow> error + (xml \<times> converter)" where
  "process_tracks_loop env [] collection st = Inr (collection, st)"
| "process_tracks_loop env (track # rest) collection st =
     (let track_id = get_attribute track ''TrackID''
      in case process_track env track collection st of
           Inl e \<Rightarrow> Inl e
         | Inr (ok, collection', st') \<Rightarrow>
             (if ok
              then (let file_path = file_path_of env track;
                        st1 = st'\<lparr>tracks := tracks st' @ [file_path]\<rparr>;
                        st2 = (if truthy track_id
                               then st1\<lparr>track_id_map := (track_id_map st1)(or_str track_id [] \<mapsto> file_path)\<rparr>
                               else st1)
                    in process_tracks_loop env rest collection' (st2\<lparr>track_index := track_index st2 + 1\<rparr>))
              else process_tracks_loop env rest collection' st'))"

text \<open>
  \<open>convert_xml_to_nml\<close> on the parsed source document; the result is the tree that is
  written to the output file. The collection is attached to the root once it is filled.
\<close>

definition convert_xml_to_nml :: "'f env \<Rightarrow> xml \<Rightarrow> converter \<Rightarrow> error + (xml \<times> converter)" where
  "convert_xml_to_nml env rekordbox_root st =
     (let entries = findall_desc ''TRACK'' rekordbox_root;
          root = add_head (Elem ''NML'' [(''VERSION'', ''20'')] [])
      in case process_tracks_loop env entries (add_collection entries)
                (st\<lparr>tracks := [], track_id_map := Map.empty\<rparr>) of
           Inl e \<Rightarrow> Inl e
         | Inr (collection, st1) \<Rightarrow>
             (case process_playlists env rekordbox_root (add_sets (SubElement root collection)) st1 of
                (root', st2) \<Rightarrow> Inr (add_indexing root', st2)))"

text \<open>The converter as \<^verbatim>\<open>__init__\<close> leaves it.\<close>

definition new_converter :: converter where
  "new_converter = \<lparr>cue_index = 0, track_index = 0, tracks = [], track_id_map = Map.empty, uuid_count = 0\<rparr>"

section \<open>A sample environment\<close>

text \<open>
  To run the model on concrete documents, the parameters need values. The sample
  environment stands in for Python floats with decimal fixed-point numbers: the integer
  \<open>v\<close> is the number \<open>v / 10\<^sup>6\<close>. It reads plain decimal strings (an optional sign,
  digits, an optional point and digits) and refuses every other string, as
  \<^verbatim>\<open>float\<close> refuses a string that is no number.
\<close>

definition digit_val :: "char \<Rightarrow> nat option" where
  "digit_val c =
     map_of [(CHR ''0'', 0), (CHR ''1'', 1), (CHR ''2'', 2), (CHR ''3'', 3), (CHR ''4'', 4),
             (CHR ''5'', 5), (CHR ''6'', 6), (CHR ''7'', 7), (CHR ''8'', 8), (CHR ''9'', 9)] c"

fun digits_val :: "nat \<Rightarrow> string \<Rightarrow> nat option" where
  "digits_val acc [] = Some acc"
| "digits_val acc (c # cs) =
     (case digit_val c of None \<Rightarrow> None | Some d \<Rightarrow> digits_val (10 * acc + d) cs)"

definition fixed_of_unsigned :: "string \<Rightarrow> int option" where
  "fixed_of_unsigned s =
     (let ip = takeWhile (\<lambda>c. c \<noteq> CHR ''.'') s;
          fp = drop 1 (dropWhile (\<lambda>c. c \<noteq> CHR ''.'') s)
      in if ip = [] \<and> fp = [] then None
         else (case (digits_val 0 ip, digits_val 0 fp, digits_val 0 (take 6 (fp @ ''000000''))) of
                 (Some i, Some _, Some f) \<Rightarrow> Some (int i * 1000000 + int f)
               | _ \<Rightarrow> None))"

definition fixed_of_str :: "string \<Rightarrow> int option" where
  "fixed_of_str s =
     (case s of
        [] \<Rightarrow> None
      | c # r \<Rightarrow> if c = CHR ''-'' then map_option uminus (fixed_of_unsigned r) else fixed_of_unsigned s)"

definition fixed_fmt6 :: "int \<Rightarrow> string" where
  "fixed_fmt6 v =
     (if v < 0 then [CHR ''-''] else [])
     @ str_nat (nat \<bar>v\<bar> div 1000000) @ [CHR ''.''] @ tl (str_nat (1000000 + nat \<bar>v\<bar> mod 1000000))"

definition sample_env :: "int env" where
  "sample_env =
     \<lparr>format_date = (\<lambda>s. s),
      get_tonalikey = (\<lambda>s. s),
      get_track_color = (\<lambda>s. s),
      get_cue_type = (\<lambda>v. or_str v ''0''),
      get_location = (\<lambda>v. \<lparr>DIR = ''/:'', FILE = or_str v [], VOLUME = ''disk''\<rparr>),
      set_cue_color = (\<lambda>cue r g b. set_attrib cue ''COLOR'' (r @ '','' @ g @ '','' @ b)),
      today = ''2024/1/1'',
      KEY_TO_CODE = Map.empty,
      uuid4_hex = str_nat,
      float_of_str = fixed_of_str,
      float_of_int = (\<lambda>i. i * 1000000),
      float_mul = (\<lambda>x y. x * y div 1000000),
      float_sub = (\<lambda>x y. x - y),
      float_truthy = (\<lambda>x. x \<noteq> 0),
      float_str = fixed_fmt6,
      float_fmt6 = fixed_fmt6,
      float_to_int = (\<lambda>x. Inr (x div 1000000))\<rparr>"

section \<open>Notions used in the statements\<close>

text \<open>
  The path a playlist reference resolves to: its \<^verbatim>\<open>Key\<close> must be non-empty and a key of
  the lookup table.
\<close>

definition resolved_path :: "(string \<rightharpoonup> string) \<Rightarrow> xml \<Rightarrow> string option" where
  "resolved_path m track_elem =
     (if truthy (get_attribute track_elem ''Key'') then m (or_str (get_attribute track_elem ''Key'') []) else None)"

text \<open>The playlist entry that holds the path \<open>p\<close> as its primary key.\<close>

definition primary_key_entry :: "string \<Rightarrow> xml" where
  "primary_key_entry p = Elem ''ENTRY'' [] [Elem ''PRIMARYKEY'' [(''TYPE'', ''TRACK''), (''KEY'', p)] []]"

section \<open>Sample documents\<close>

text \<open>A converter whose lookup table knows the identifier 1 only.\<close>

definition sample_converter :: converter where
  "sample_converter = new_converter\<lparr>track_id_map := [''1'' \<mapsto> ''disk/:a.mp3'']\<rparr>"

text \<open>A playlist whose only reference is to an identifier the table lacks.\<close>

definition playlist_lost :: xml where
  "playlist_lost =
     Elem ''NODE'' [(''Name'', ''Lost''), (''Type'', ''1'')] [Elem ''TRACK'' [(''Key'', ''9'')] []]"

text \<open>A playlist with one reference that resolves and one that does not.\<close>

definition playlist_mixed :: xml where
  "playlist_mixed =
     Elem ''NODE'' [(''Name'', ''Mix''), (''Type'', ''1'')]
       [Elem ''TRACK'' [(''Key'', ''1'')] [], Elem ''TRACK'' [(''Key'', ''9'')] []]"

text \<open>A folder whose only child is that playlist.\<close>

definition folder_of_lost :: xml where
  "folder_of_lost = Elem ''NODE'' [(''Name'', ''Sets''), (''Type'', ''0'')] [playlist_lost]"

text \<open>A track whose \<^verbatim>\<open>AverageBpm\<close> is no number.\<close>

definition track_fast :: xml where
  "track_fast = Elem ''TRACK'' [(''TrackID'', ''7''), (''Name'', ''Song''), (''AverageBpm'', ''fast'')] []"

text \<open>A track with two tempo markers, and one whose first marker has a start that is no number.\<close>

definition track_two_tempos :: xml where
  "track_two_tempos =
     Elem ''TRACK'' [(''TrackID'', ''3''), (''AverageBpm'', ''128.00'')]
       [Elem ''TEMPO'' [(''Inizio'', ''0.5''), (''Bpm'', ''128.00'')] [],
        Elem ''TEMPO'' [(''Inizio'', ''60.5''), (''Bpm'', ''130.00'')] []]"

definition track_bad_tempo :: xml where
  "track_bad_tempo =
     Elem ''TRACK'' [(''TrackID'', ''4''), (''AverageBpm'', ''128.00'')]
       [Elem ''TEMPO'' [(''Inizio'', ''abc''), (''Bpm'', ''128.00'')] [],
        Elem ''TEMPO'' [(''Inizio'', ''60.5''), (''Bpm'', ''130.00'')] []]"

text \<open>A track record with tempo 128 and the default bit rate, in the sample environment's numbers.\<close>

definition sample_info :: "int track_info" where
  "sample_info =
     \<lparr>id' = ''3'', title = [], artist = [], album = [], key = [], bpm = 128000000, color = [],
      genre = [], playtime = ''0'', playcount = ''0'', bitrate = 320000000000, import_date = [],
      modif_date = [], last_played = [], ranking = ''0'', filesize = ''0'', location = [],
      comments = []\<rparr>"

text \<open>A loop from 1.5 s to 2.5 s without an explicit slot.\<close>

definition mark_loop :: xml where
  "mark_loop =
     Elem ''POSITION_MARK''
       [(''Name'', ''Drop''), (''Type'', ''4''), (''Start'', ''1.5''), (''End'', ''2.5''), (''Num'', ''-1'')] []"

text \<open>
  A track with an \<^verbatim>\<open>AutoGrid\<close> mark and three cues: one with the sentinel slot, one with
  slot 5, one without a slot.
\<close>

definition track_with_cues :: xml where
  "track_with_cues =
     Elem ''TRACK'' [(''TrackID'', ''5''), (''AverageBpm'', ''128.00'')]
       [Elem ''POSITION_MARK'' [(''Name'', ''AutoGrid''), (''Type'', ''0''), (''Start'', ''0.0''), (''Num'', ''-1'')] [],
        Elem ''POSITION_MARK'' [(''Name'', ''Intro''), (''Type'', ''0''), (''Start'', ''1.0''), (''Num'', ''-1'')] [],
        Elem ''POSITION_MARK'' [(''Name'', ''Verse''), (''Type'', ''0''), (''Start'', ''2.0''), (''Num'', ''5'')] [],
        Elem ''POSITION_MARK'' [(''Name'', ''Outro''), (''Type'', ''0''), (''Start'', ''3.0'')] []]"


text \<open>The track of the scenario: identifier 1, no tempo marker, no position mark, empty tempo.\<close>

definition scenario_track :: xml where
  "scenario_track =
     Elem ''TRACK'' [(''TrackID'', ''1''), (''Name'', ''Song''), (''AverageBpm'', []), (''Location'', ''a.mp3'')] []"

text \<open>A track without a \<^verbatim>\<open>TrackID\<close> attribute.\<close>

definition track_without_id :: xml where
  "track_without_id = Elem ''TRACK'' [(''Name'', ''Song''), (''Location'', ''b.mp3'')] []"

text \<open>
  The scenario document: a collection with the scenario track, and a playlist section whose
  root folder holds one playlist with one reference to the identifier 1.
\<close>

definition scenario_doc :: xml where
  "scenario_doc =
     Elem ''DJ_PLAYLISTS'' [(''Version'', ''1.0.0'')]
       [Elem ''COLLECTION'' [(''Entries'', ''1'')] [scenario_track],
        Elem ''PLAYLISTS'' []
          [Elem ''NODE'' [(''Type'', ''0''), (''Name'', ''ROOT''), (''Count'', ''1'')]
             [Elem ''NODE'' [(''Name'', ''Mix''), (''Type'', ''1''), (''KeyType'', ''0''), (''Entries'', ''1'')]
                [Elem ''TRACK'' [(''Key'', ''1'')] []]]]]"

section \<open>Basic facts\<close>

lemma SubElement_sel [simp]:
  "tag (SubElement p c) = tag p" "attribs (SubElement p c) = attribs p"
  "children (SubElement p c) = children p @ [c]"
  by (simp_all add: SubElement_def)

lemma map_of_set_item_same: "map_of (set_item kvs k v) k = Some v"
  by (induction kvs) auto

lemma map_of_set_item_other: "k' \<noteq> k \<Longrightarrow> map_of (set_item kvs k v) k' = map_of kvs k'"
  by (induction kvs) auto

lemma get_attribute_set_attrib:
  "get_attribute (set_attrib e k v) k' = (if k' = k then Some v else get_attribute e k')"
  by (simp add: get_attribute_def set_attrib_def map_of_set_item_same map_of_set_item_other)

lemma children_set_attrib [simp]: "children (set_attrib e k v) = children e"
  by (simp add: set_attrib_def)

lemma length_map_filter: "length (List.map_filter f xs) = length (filter (\<lambda>x. f x \<noteq> None) xs)"
  by (induction xs) (auto simp: List.map_filter_simps split: option.splits)

lemma map_filter_none: "\<forall>x \<in> set xs. f x = None \<Longrightarrow> List.map_filter f xs = []"
  by (induction xs) (simp_all add: List.map_filter_simps)

section \<open>Playlist translation: facts\<close>

lemma playlist_entries_loop_eq:
  "playlist_entries_loop m refs pl =
     Elem (tag pl) (attribs pl) (children pl @ map primary_key_entry (List.map_filter (resolved_path m) refs))"
proof (induction refs arbitrary: pl)
  case Nil
  then show ?case by (cases pl) (simp add: List.map_filter_simps)
next
  case (Cons r refs)
  show ?case
    by (simp add: Cons.IH List.map_filter_simps resolved_path_def primary_key_entry_def Let_def
        split: option.splits)
qed

lemma process_child_nodes_count:
  "process_child_nodes env cs (sub, st, cnt) = (sub', st', cnt') \<Longrightarrow> cnt' = cnt + int (length cs)"
proof (induction cs arbitrary: sub st cnt)
  case Nil
  then show ?case by simp
next
  case (Cons c cs)
  obtain s1 st1 where step: "process_playlist_node env c (sub, st) = (s1, st1)"
    by (cases "process_playlist_node env c (sub, st)") auto
  with Cons.prems have "process_child_nodes env cs (s1, st1, cnt + 1) = (sub', st', cnt')"
    by simp
  from Cons.IH [OF this] show ?case by simp
qed

lemma playlist_node_result:
  assumes "truthy (get_attribute node ''Name'')" and "get_attribute node ''Type'' = Some ''1''"
    and "findall ''TRACK'' node \<noteq> []"
  shows "process_playlist_node env node (parent, st) =
     (SubElement parent
        (Elem ''NODE'' [(''TYPE'', ''PLAYLIST''), (''NAME'', or_str (get_attribute node ''Name'') [])]
           [Elem ''PLAYLIST''
              [(''ENTRIES'', str_int (int (length (findall ''TRACK'' node)))),
               (''TYPE'', ''LIST''),
               (''UUID'', uuid4_hex env (uuid_count st))]
              (map primary_key_entry (List.map_filter (resolved_path (track_id_map st)) (findall ''TRACK'' node)))]),
      st\<lparr>uuid_count := Suc (uuid_count st)\<rparr>)"
  using assms by (simp add: process_playlist_node.simps playlist_entries_loop_eq Let_def)

lemma tag_preserved:
  "tag (fst (process_playlist_node env n ps)) = tag (fst ps)"
  "tag (fst (process_child_nodes env cs acc)) = tag (fst acc)"
proof (induction env n ps and env cs acc rule: process_playlist_node_process_child_nodes.induct)
  case (1 env rekordbox_node parent_subnodes st)
  show ?case
    by (simp add: process_playlist_node.simps Let_def split: prod.splits)
next
  case (2 env acc)
  show ?case by simp
next
  case (3 env child rest subnodes st child_count)
  obtain s1 st1 where step: "process_playlist_node env child (subnodes, st) = (s1, st1)"
    by (cases "process_playlist_node env child (subnodes, st)") auto
  from 3 step show ?case by simp
qed

lemma folder_node_result:
  assumes "truthy (get_attribute node ''Name'')" and "get_attribute node ''Type'' = Some ''0''"
    and "process_child_nodes env (findall ''NODE'' node) (Elem ''SUBNODES'' [] [], st, 0) = (subs, st', cnt)"
  shows "process_playlist_node env node (parent, st) =
     (SubElement parent
        (Elem ''NODE'' [(''TYPE'', ''FOLDER''), (''NAME'', or_str (get_attribute node ''Name'') [])]
           [set_attrib subs ''COUNT'' (str_int (int (length (findall ''NODE'' node))))]),
      st')"
  using assms process_child_nodes_count [OF assms(3)]
  by (simp add: process_playlist_node.simps Let_def)

lemma emitting_node_adds_one:
  assumes "truthy (get_attribute c ''Name'')"
    and "get_attribute c ''Type'' = Some ''0''
         \<or> (get_attribute c ''Type'' = Some ''1'' \<and> findall ''TRACK'' c \<noteq> [])"
  shows "\<exists>n s'. process_playlist_node env c (p, s) = (SubElement p n, s')"
proof (cases "get_attribute c ''Type'' = Some ''0''")
  case True
  obtain subs s' cnt where
    "process_child_nodes env (findall ''NODE'' c) (Elem ''SUBNODES'' [] [], s, 0) = (subs, s', cnt)"
    by (cases "process_child_nodes env (findall ''NODE'' c) (Elem ''SUBNODES'' [] [], s, 0)") auto
  from folder_node_result [OF assms(1) True this] show ?thesis by blast
next
  case False
  with assms(2) have "get_attribute c ''Type'' = Some ''1''" and "findall ''TRACK'' c \<noteq> []"
    by simp_all
  from playlist_node_result [OF assms(1) this] show ?thesis by blast
qed

lemma emitting_children_loop:
  assumes "\<forall>c \<in> set cs. truthy (get_attribute c ''Name'')
             \<and> (get_attribute c ''Type'' = Some ''0''
                 \<or> (get_attribute c ''Type'' = Some ''1'' \<and> findall ''TRACK'' c \<noteq> []))"
  shows "\<exists>ns s'. process_child_nodes env cs (p, s, cnt)
                    = (Elem (tag p) (attribs p) (children p @ ns), s', cnt + int (length cs))
               \<and> length ns = length cs"
  using assms
proof (induction cs arbitrary: p s cnt)
  case Nil
  show ?case by (cases p) simp
next
  case (Cons c cs)
  from Cons.prems have c: "truthy (get_attribute c ''Name'')"
    "get_attribute c ''Type'' = Some ''0''
         \<or> (get_attribute c ''Type'' = Some ''1'' \<and> findall ''TRACK'' c \<noteq> [])"
    and rest: "\<forall>c \<in> set cs. truthy (get_attribute c ''Name'')
             \<and> (get_attribute c ''Type'' = Some ''0''
                 \<or> (get_attribute c ''Type'' = Some ''1'' \<and> findall ''TRACK'' c \<noteq> []))"
    by simp_all
  from emitting_node_adds_one [OF c] obtain n s1 where
    step: "process_playlist_node env c (p, s) = (SubElement p n, s1)" by blast
  from Cons.IH [OF rest, of "SubElement p n" s1 "cnt + 1"] obtain ns s' where
    loop: "process_child_nodes env cs (SubElement p n, s1, cnt + 1)
             = (Elem (tag p) (attribs p) (children p @ n # ns), s', cnt + 1 + int (length cs))"
    and len: "length ns = length cs"
    by auto
  show ?case
    using len by (intro exI [of _ "n # ns"] exI [of _ s']) (simp add: step loop)
qed

text \<open>
  C3, as stated, fails: a child playlist is left out only when it has no \<^verbatim>\<open>TRACK\<close>
  element. A folder whose only child is a playlist with one reference that does not
  resolve is emitted with that playlist (without entries) as its child and with
  \<^verbatim>\<open>COUNT\<close> 1, not 0.
\<close>

theorem folder_of_unresolved_playlist_counts_one:
  "process_playlist_node sample_env folder_of_lost (Elem ''SUBNODES'' [] [], sample_converter) =
     (Elem ''SUBNODES'' []
        [Elem ''NODE'' [(''TYPE'', ''FOLDER''), (''NAME'', ''Sets'')]
           [Elem ''SUBNODES'' [(''COUNT'', ''1'')]
              [Elem ''NODE'' [(''TYPE'', ''PLAYLIST''), (''NAME'', ''Lost'')]
                 [Elem ''PLAYLIST'' [(''ENTRIES'', ''1''), (''TYPE'', ''LIST''), (''UUID'', ''0'')] []]]]],
      sample_converter\<lparr>uuid_count := 1\<rparr>)"
  by (simp add: process_playlist_node.simps Let_def folder_of_lost_def playlist_lost_def sample_converter_def
      new_converter_def sample_env_def get_attribute_def truthy_def or_str_def findall_def
      SubElement_def set_attrib_def str_int_def str_nat.simps digit_char_def)

text \<open>
  C3, amended. In a folder node (non-empty name, type 0), let every child node have a
  non-empty name and be a folder or a playlist with at least one \<^verbatim>\<open>TRACK\<close> element,
  whether or not the references of a playlist resolve. Then every child produces one
  destination child node, and the \<^verbatim>\<open>COUNT\<close> of the folder's \<^verbatim>\<open>SUBNODES\<close> element is
  the number of its child nodes, which is the number of source children.
\<close>

theorem folder_count_when_every_child_is_emitted:
  assumes "truthy (get_attribute node ''Name'')" and "get_attribute node ''Type'' = Some ''0''"
    and "\<forall>c \<in> set (findall ''NODE'' node). truthy (get_attribute c ''Name'')
             \<and> (get_attribute c ''Type'' = Some ''0''
                 \<or> (get_attribute c ''Type'' = Some ''1'' \<and> findall ''TRACK'' c \<noteq> []))"
  shows "\<exists>subs st'. process_playlist_node env node (parent, st) =
            (SubElement parent
               (Elem ''NODE'' [(''TYPE'', ''FOLDER''), (''NAME'', or_str (get_attribute node ''Name'') [])] [subs]),
             st')
          \<and> tag subs = ''SUBNODES''
          \<and> length (children subs) = length (findall ''NODE'' node)
          \<and> get_attribute subs ''COUNT'' = Some (str_int (int (length (children subs))))"
proof -
  let ?cs = "findall ''NODE'' node"
  from emitting_children_loop [OF assms(3), of env "Elem ''SUBNODES'' [] []" st 0] obtain ns st' where
    loop: "process_child_nodes env ?cs (Elem ''SUBNODES'' [] [], st, 0)
             = (Elem ''SUBNODES'' [] ns, st', int (length ?cs))"
    and len: "length ns = length ?cs"
    by auto
  let ?subs = "set_attrib (Elem ''SUBNODES'' [] ns) ''COUNT'' (str_int (int (length ?cs)))"
  have "process_playlist_node env node (parent, st) =
      (SubElement parent
         (Elem ''NODE'' [(''TYPE'', ''FOLDER''), (''NAME'', or_str (get_attribute node ''Name'') [])] [?subs]),
       st')"
    by (rule folder_node_result [OF assms(1,2) loop])
  moreover have "tag ?subs = ''SUBNODES''"
    by (simp add: set_attrib_def)
  moreover have "length (children ?subs) = length ?cs"
    by (simp add: len)
  moreover have "get_attribute ?subs ''COUNT'' = Some (str_int (int (length (children ?subs))))"
    by (simp add: get_attribute_set_attrib len)
  ultimately show ?thesis
    by (intro exI [of _ ?subs] exI [of _ st']) simp
qed

theorem folder_count_when_every_child_is_emitted_witness:
  "\<exists>subs st'. process_playlist_node sample_env folder_of_lost (Elem ''SUBNODES'' [] [], sample_converter) =
            (SubElement (Elem ''SUBNODES'' [] [])
               (Elem ''NODE'' [(''TYPE'', ''FOLDER''), (''NAME'', ''Sets'')] [subs]),
             st')
          \<and> length (children subs) = 1
          \<and> get_attribute subs ''COUNT'' = Some ''1''"
proof -
  have cs: "findall ''NODE'' folder_of_lost = [playlist_lost]"
    by (simp add: findall_def folder_of_lost_def playlist_lost_def)
  have h1: "truthy (get_attribute folder_of_lost ''Name'')"
    by (simp add: truthy_def get_attribute_def folder_of_lost_def)
  have h2: "get_attribute folder_of_lost ''Type'' = Some ''0''"
    by (simp add: get_attribute_def folder_of_lost_def)
  have h3: "\<forall>c \<in> set (findall ''NODE'' folder_of_lost). truthy (get_attribute c ''Name'')
             \<and> (get_attribute c ''Type'' = Some ''0''
                 \<or> (get_attribute c ''Type'' = Some ''1'' \<and> findall ''TRACK'' c \<noteq> []))"
    unfolding cs by (simp add: truthy_def get_attribute_def findall_def playlist_lost_def)
  have name: "or_str (get_attribute folder_of_lost ''Name'') [] = ''Sets''"
    by (simp add: or_str_def get_attribute_def folder_of_lost_def)
  have one: "str_int 1 = ''1''"
    by (simp add: str_int_def str_nat.simps digit_char_def)
  from folder_count_when_every_child_is_emitted
      [OF h1 h2 h3, of sample_env "Elem ''SUBNODES'' [] []" sample_converter]
  obtain subs st' where
    "process_playlist_node sample_env folder_of_lost (Elem ''SUBNODES'' [] [], sample_converter) =
            (SubElement (Elem ''SUBNODES'' [] [])
               (Elem ''NODE'' [(''TYPE'', ''FOLDER''), (''NAME'', ''Sets'')] [subs]),
             st')"
    and "length (children subs) = 1"
    and "get_attribute subs ''COUNT'' = Some (str_int (int (length (children subs))))"
    unfolding name cs by auto
  then show ?thesis
    by (intro exI [of _ subs] exI [of _ st']) (simp add: one)
qed

text \<open>
  C4, as stated, fails in its second case: a playlist whose only reference does not
  resolve still has a \<^verbatim>\<open>TRACK\<close> element, so the destination playlist node is
  created, with \<^verbatim>\<open>ENTRIES\<close> 1 and no entry.
\<close>

theorem playlist_of_lost_reference_is_created:
  "process_playlist_node sample_env playlist_lost (Elem ''SUBNODES'' [] [], sample_converter) =
     (Elem ''SUBNODES'' []
        [Elem ''NODE'' [(''TYPE'', ''PLAYLIST''), (''NAME'', ''Lost'')]
           [Elem ''PLAYLIST'' [(''ENTRIES'', ''1''), (''TYPE'', ''LIST''), (''UUID'', ''0'')] []]],
      sample_converter\<lparr>uuid_count := 1\<rparr>)"
  by (simp add: process_playlist_node.simps Let_def playlist_lost_def sample_converter_def
      new_converter_def sample_env_def get_attribute_def truthy_def or_str_def findall_def
      SubElement_def str_int_def str_nat.simps digit_char_def)

text \<open>
  C4, amended. A source playlist node (non-empty name, type 1) with at least one
  \<^verbatim>\<open>TRACK\<close> reference always produces a destination playlist node; the node holds one
  entry for each reference that resolves, in source order, and nothing for a reference
  that does not; when no reference resolves the node is created without entries. The
  function is total: no reference raises an error.
\<close>

theorem playlist_keeps_resolved_references_only:
  assumes "truthy (get_attribute node ''Name'')" and "get_attribute node ''Type'' = Some ''1''"
    and "findall ''TRACK'' node \<noteq> []"
  shows "\<exists>pl. process_playlist_node env node (parent, st) =
            (SubElement parent
               (Elem ''NODE'' [(''TYPE'', ''PLAYLIST''), (''NAME'', or_str (get_attribute node ''Name'') [])] [pl]),
             st\<lparr>uuid_count := Suc (uuid_count st)\<rparr>)
          \<and> tag pl = ''PLAYLIST''
          \<and> children pl = map primary_key_entry
                (List.map_filter (resolved_path (track_id_map st)) (findall ''TRACK'' node))
          \<and> ((\<forall>r \<in> set (findall ''TRACK'' node). resolved_path (track_id_map st) r = None)
               \<longrightarrow> children pl = [])"
proof -
  let ?refs = "findall ''TRACK'' node"
  let ?pl = "Elem ''PLAYLIST''
              [(''ENTRIES'', str_int (int (length ?refs))),
               (''TYPE'', ''LIST''),
               (''UUID'', uuid4_hex env (uuid_count st))]
              (map primary_key_entry (List.map_filter (resolved_path (track_id_map st)) ?refs))"
  have none: "List.map_filter (resolved_path (track_id_map st)) ?refs = []"
    if "\<forall>r \<in> set ?refs. resolved_path (track_id_map st) r = None"
    using that by (rule map_filter_none)
  then show ?thesis
    by (intro exI [of _ ?pl]) (simp add: playlist_node_result [OF assms])
qed

theorem playlist_keeps_resolved_references_only_witness:
  "\<exists>pl. process_playlist_node sample_env playlist_lost (Elem ''SUBNODES'' [] [], sample_converter) =
            (SubElement (Elem ''SUBNODES'' [] [])
               (Elem ''NODE'' [(''TYPE'', ''PLAYLIST''), (''NAME'', ''Lost'')] [pl]),
             sample_converter\<lparr>uuid_count := 1\<rparr>)
          \<and> tag pl = ''PLAYLIST''
          \<and> children pl = []"
proof -
  have refs: "findall ''TRACK'' playlist_lost = [Elem ''TRACK'' [(''Key'', ''9'')] []]"
    by (simp add: findall_def playlist_lost_def)
  have h1: "truthy (get_attribute playlist_lost ''Name'')"
    by (simp add: truthy_def get_attribute_def playlist_lost_def)
  have h2: "get_attribute playlist_lost ''Type'' = Some ''1''"
    by (simp add: get_attribute_def playlist_lost_def)
  have h3: "findall ''TRACK'' playlist_lost \<noteq> []"
    by (simp add: refs)
  have name: "or_str (get_attribute playlist_lost ''Name'') [] = ''Lost''"
    by (simp add: or_str_def get_attribute_def playlist_lost_def)
  have lost: "\<forall>r \<in> set (findall ''TRACK'' playlist_lost). resolved_path (track_id_map sample_converter) r = None"
    by (simp add: refs resolved_path_def sample_converter_def new_converter_def truthy_def
        or_str_def get_attribute_def)
  have cnt: "uuid_count sample_converter = 0"
    by (simp add: sample_converter_def new_converter_def)
  show ?thesis
    using playlist_keeps_resolved_references_only
      [OF h1 h2 h3, of sample_env "Elem ''SUBNODES'' [] []" sample_converter] lost
    by (simp add: name cnt) blast
qed

text \<open>
  C10. A source playlist node produces a destination playlist node when it has a non-empty
  name, type 1 and at least one \<^verbatim>\<open>TRACK\<close> reference. The \<^verbatim>\<open>ENTRIES\<close> attribute of
  that node's \<^verbatim>\<open>PLAYLIST\<close> element is the number of source references, while its
  \<^verbatim>\<open>ENTRY\<close> children are as many as the references that resolve; when a reference does
  not resolve, the number \<^verbatim>\<open>ENTRIES\<close> states is strictly greater than the number of
  entries emitted.
\<close>

theorem playlist_entries_attribute_counts_references:
  assumes "truthy (get_attribute node ''Name'')" and "get_attribute node ''Type'' = Some ''1''"
    and "findall ''TRACK'' node \<noteq> []"
  shows "\<exists>pl. process_playlist_node env node (parent, st) =
            (SubElement parent
               (Elem ''NODE'' [(''TYPE'', ''PLAYLIST''), (''NAME'', or_str (get_attribute node ''Name'') [])] [pl]),
             st\<lparr>uuid_count := Suc (uuid_count st)\<rparr>)
          \<and> tag pl = ''PLAYLIST''
          \<and> get_attribute pl ''ENTRIES'' = Some (str_int (int (length (findall ''TRACK'' node))))
          \<and> length (children pl)
              = length (filter (\<lambda>r. resolved_path (track_id_map st) r \<noteq> None) (findall ''TRACK'' node))
          \<and> length (children pl) \<le> length (findall ''TRACK'' node)
          \<and> ((\<exists>r \<in> set (findall ''TRACK'' node). resolved_path (track_id_map st) r = None)
               \<longrightarrow> length (children pl) < length (findall ''TRACK'' node))"
proof -
  let ?refs = "findall ''TRACK'' node"
  let ?keep = "filter (\<lambda>r. resolved_path (track_id_map st) r \<noteq> None) ?refs"
  have strict: "length ?keep < length ?refs"
    if "\<exists>r \<in> set ?refs. resolved_path (track_id_map st) r = None"
  proof -
    from that obtain r where "r \<in> set ?refs" and "\<not> resolved_path (track_id_map st) r \<noteq> None"
      by auto
    then show ?thesis by (rule length_filter_less)
  qed
  let ?pl = "Elem ''PLAYLIST''
              [(''ENTRIES'', str_int (int (length ?refs))),
               (''TYPE'', ''LIST''),
               (''UUID'', uuid4_hex env (uuid_count st))]
              (map primary_key_entry (List.map_filter (resolved_path (track_id_map st)) ?refs))"
  have len: "length (children ?pl) = length ?keep"
    by (simp add: length_map_filter)
  have "length ?keep \<le> length ?refs"
    by (rule length_filter_le)
  with len strict show ?thesis
    by (intro exI [of _ ?pl]) (simp add: playlist_node_result [OF assms] get_attribute_def)
qed

theorem playlist_entries_attribute_counts_references_witness:
  "\<exists>pl. process_playlist_node sample_env playlist_mixed (Elem ''SUBNODES'' [] [], sample_converter) =
            (SubElement (Elem ''SUBNODES'' [] [])
               (Elem ''NODE'' [(''TYPE'', ''PLAYLIST''), (''NAME'', ''Mix'')] [pl]),
             sample_converter\<lparr>uuid_count := 1\<rparr>)
          \<and> get_attribute pl ''ENTRIES'' = Some ''2''
          \<and> length (children pl) = 1"
proof -
  have refs: "findall ''TRACK'' playlist_mixed
      = [Elem ''TRACK'' [(''Key'', ''1'')] [], Elem ''TRACK'' [(''Key'', ''9'')] []]"
    by (simp add: findall_def playlist_mixed_def)
  have h1: "truthy (get_attribute playlist_mixed ''Name'')"
    by (simp add: truthy_def get_attribute_def playlist_mixed_def)
  have h2: "get_attribute playlist_mixed ''Type'' = Some ''1''"
    by (simp add: get_attribute_def playlist_mixed_def)
  have h3: "findall ''TRACK'' playlist_mixed \<noteq> []"
    by (simp add: refs)
  have name: "or_str (get_attribute playlist_mixed ''Name'') [] = ''Mix''"
    by (simp add: or_str_def get_attribute_def playlist_mixed_def)
  have two: "str_int (int (length (findall ''TRACK'' playlist_mixed))) = ''2''"
    by (simp add: refs str_int_def str_nat.simps digit_char_def)
  have keep: "filter (\<lambda>r. \<exists>y. resolved_path (track_id_map sample_converter) r = Some y)
                (findall ''TRACK'' playlist_mixed) = [Elem ''TRACK'' [(''Key'', ''1'')] []]"
    by (simp add: refs resolved_path_def sample_converter_def new_converter_def truthy_def
        or_str_def get_attribute_def)
  have cnt: "uuid_count sample_converter = 0"
    by (simp add: sample_converter_def new_converter_def)
  show ?thesis
    using playlist_entries_attribute_counts_references
      [OF h1 h2 h3, of sample_env "Elem ''SUBNODES'' [] []" sample_converter]
    by (simp add: name two keep cnt) blast
qed

section \<open>Track mapping: facts\<close>

lemma py_float_str:
  "py_float env (PStr s) = (case float_of_str env s of None \<Rightarrow> Inl ValueError | Some x \<Rightarrow> Inr x)"
  by (simp add: py_float_def)

lemma safe_float_value:
  "safe_float env v d = Inr (if v = [] then d else case float_of_str env v of None \<Rightarrow> d | Some x \<Rightarrow> x)"
  by (simp add: safe_float_def py_float_str split: option.splits)

lemma set_track_info_bpm:
  "\<exists>info st'. set_track_info env track st = Inr (info, st')
     \<and> bpm info = (let v = safe_get_attr track ''AverageBpm'' ''120.0''
                    in case float_of_str env v of None \<Rightarrow> float_of_int env 120 | Some x \<Rightarrow> x)
     \<and> cue_index st' = cue_index st \<and> tracks st' = tracks st \<and> track_id_map st' = track_id_map st
     \<and> track_index st' = track_index st"
  by (simp add: set_track_info_def safe_float_value Let_def safe_get_attr_def or_str_def split: option.splits)

text \<open>
  C7. Let the float of the string \<^verbatim>\<open>"120.0"\<close> be the float 120, and let the float 120
  format to \<^verbatim>\<open>"120.000000"\<close>, as in Python. For a track whose \<^verbatim>\<open>AverageBpm\<close> is
  missing, empty or a string that \<^verbatim>\<open>float\<close> refuses, \<open>set_track_info\<close> returns a record
  (it does not raise), and the \<^verbatim>\<open>TEMPO\<close> element \<open>add_tempo\<close> emits from that record has
  \<^verbatim>\<open>BPM\<close> \<^verbatim>\<open>"120.000000"\<close>.
\<close>

theorem default_bpm_for_empty_or_invalid:
  assumes lit: "float_of_str env ''120.0'' = Some (float_of_int env 120)"
    and fmt: "float_fmt6 env (float_of_int env 120) = ''120.000000''"
    and bad: "\<not> truthy (get_attribute track ''AverageBpm'')
              \<or> float_of_str env (or_str (get_attribute track ''AverageBpm'') []) = None"
  shows "\<exists>info st'. set_track_info env track st = Inr (info, st')
           \<and> add_tempo env info trk =
               SubElement trk (Elem ''TEMPO'' [(''BPM'', ''120.000000''), (''BPM_QUALITY'', ''100.000000'')] [])"
proof -
  obtain info st' where r: "set_track_info env track st = Inr (info, st')"
    and b: "bpm info = (let v = safe_get_attr track ''AverageBpm'' ''120.0''
                    in case float_of_str env v of None \<Rightarrow> float_of_int env 120 | Some x \<Rightarrow> x)"
    using set_track_info_bpm [of env track st] by blast
  have "bpm info = float_of_int env 120"
    using bad lit unfolding b
    by (auto simp: safe_get_attr_def or_str_def truthy_def Let_def split: option.splits if_splits)
  then show ?thesis
    using r fmt by (simp add: add_tempo_def)
qed

theorem default_bpm_for_empty_or_invalid_witness:
  "\<exists>info st'. set_track_info sample_env track_fast new_converter = Inr (info, st')
           \<and> add_tempo sample_env info (Elem ''ENTRY'' [] []) =
               SubElement (Elem ''ENTRY'' [] [])
                 (Elem ''TEMPO'' [(''BPM'', ''120.000000''), (''BPM_QUALITY'', ''100.000000'')] [])"
proof -
  have lit: "float_of_str sample_env ''120.0'' = Some (float_of_int sample_env 120)"
    by (simp add: sample_env_def fixed_of_str_def fixed_of_unsigned_def digit_val_def)
  have fmt: "float_fmt6 sample_env (float_of_int sample_env 120) = ''120.000000''"
    by (simp add: sample_env_def fixed_fmt6_def str_nat.simps digit_char_def)
  have bad: "\<not> truthy (get_attribute track_fast ''AverageBpm'')
              \<or> float_of_str sample_env (or_str (get_attribute track_fast ''AverageBpm'') []) = None"
    by (simp add: track_fast_def get_attribute_def or_str_def sample_env_def fixed_of_str_def
        fixed_of_unsigned_def digit_val_def)
  show ?thesis
    using default_bpm_for_empty_or_invalid [OF lit fmt bad, of new_converter "Elem ''ENTRY'' [] []"] by simp
qed

section \<open>Beat-grid reconstruction: facts\<close>

lemma Elem_sel_eq [simp]: "Elem (tag e) (attribs e) (children e) = e"
  by (cases e) simp

lemma process_tempo_loop_later:
  "list_all2 (\<lambda>t v. read_tempo env info t = Inr v) tempos vals \<Longrightarrow>
   process_tempo_loop env info (Suc i) tempos trk =
     Inr (Elem (tag trk) (attribs trk)
            (children trk @ map (\<lambda>v. beatmarker env (fst v) (snd v) False) vals))"
proof (induction tempos vals arbitrary: i trk rule: list_all2_induct)
  case Nil
  then show ?case by simp
next
  case (Cons t ts v vs)
  obtain s b where v: "v = (s, b)" by (cases v)
  show ?case
    using Cons.hyps(1) by (simp add: v Cons.IH add_beatmarker_def)
qed

text \<open>
  Where the markers read as numbers: for a track with N \<open>\<ge>\<close> 2 \<^verbatim>\<open>TEMPO\<close> elements, each
  of which reads as a start and a tempo, \<open>process_tempo\<close> returns and appends to the entry
  the beat marker of the first element, flagged auto-grid; the grid anchor at the same
  start; then one plain beat marker for each further element, in source order. So there
  are exactly N beat markers (type 4), only the first is named \<^verbatim>\<open>AutoGrid\<close>, and there
  is exactly one grid anchor (type 0).
\<close>

lemma tempo_markers_in_source_order:
  assumes reads: "list_all2 (\<lambda>t v. read_tempo env info t = Inr v) (findall ''TEMPO'' track) (v # vs)"
    and many: "2 \<le> length (findall ''TEMPO'' track)"
  shows "\<exists>added. process_tempo env info track trk = Inr (Elem (tag trk) (attribs trk) (children trk @ added))
           \<and> added = beatmarker env (fst v) (snd v) True # autogrid env (fst v)
                       # map (\<lambda>w. beatmarker env (fst w) (snd w) False) vs
           \<and> filter (\<lambda>c. get_attribute c ''TYPE'' = Some ''4'') added
               = beatmarker env (fst v) (snd v) True # map (\<lambda>w. beatmarker env (fst w) (snd w) False) vs
           \<and> length (filter (\<lambda>c. get_attribute c ''TYPE'' = Some ''4'') added) = length (findall ''TEMPO'' track)
           \<and> filter (\<lambda>c. get_attribute c ''NAME'' = Some ''AutoGrid'' \<and> get_attribute c ''TYPE'' = Some ''4'') added
               = [beatmarker env (fst v) (snd v) True]
           \<and> filter (\<lambda>c. get_attribute c ''TYPE'' = Some ''0'') added = [autogrid env (fst v)]"
proof -
  from reads obtain t ts where ts: "findall ''TEMPO'' track = t # ts"
    and t: "read_tempo env info t = Inr v"
    and rest: "list_all2 (\<lambda>t v. read_tempo env info t = Inr v) ts vs"
    by (auto simp: list_all2_Cons2)
  from many ts obtain t' ts' where ts': "ts = t' # ts'"
    by (cases ts) auto
  obtain s b where v: "v = (s, b)" by (cases v)
  have len: "length vs = length ts"
    using rest by (simp add: list_all2_lengthD)
  have run: "process_tempo env info track trk =
      Inr (Elem (tag trk) (attribs trk)
             (children trk @ beatmarker env s b True # autogrid env s
                # map (\<lambda>w. beatmarker env (fst w) (snd w) False) vs))"
  proof -
    have "process_tempo env info track trk = process_tempo_loop env info 0 (t # ts) trk"
      by (simp add: process_tempo_def ts ts')
    also have "\<dots> = process_tempo_loop env info (Suc 0) ts
                        (add_autogrid env (add_beatmarker env trk s b True) s)"
      using t by (simp add: v del: process_tempo_loop.simps(2) add: process_tempo_loop.simps(2) [of env info 0 t ts trk])
    also have "\<dots> = Inr (Elem (tag trk) (attribs trk)
             (children trk @ beatmarker env s b True # autogrid env s
                # map (\<lambda>w. beatmarker env (fst w) (snd w) False) vs))"
      by (simp add: process_tempo_loop_later [OF rest] add_beatmarker_def add_autogrid_def)
    finally show ?thesis .
  qed
  have bm: "filter (\<lambda>c. get_attribute c ''TYPE'' = Some ''4'') (map (\<lambda>w. beatmarker env (fst w) (snd w) False) vs)
      = map (\<lambda>w. beatmarker env (fst w) (snd w) False) vs"
    by (induction vs) (simp_all add: beatmarker_def get_attribute_def)
  have ag: "filter (\<lambda>c. get_attribute c ''NAME'' = Some ''AutoGrid'' \<and> get_attribute c ''TYPE'' = Some ''4'')
        (map (\<lambda>w. beatmarker env (fst w) (snd w) False) vs) = []"
    by (induction vs) (simp_all add: beatmarker_def get_attribute_def)
  have an: "filter (\<lambda>c. get_attribute c ''TYPE'' = Some ''0'') (map (\<lambda>w. beatmarker env (fst w) (snd w) False) vs) = []"
    by (induction vs) (simp_all add: beatmarker_def get_attribute_def)
  have first: "get_attribute (beatmarker env s b True) ''TYPE'' = Some ''4''"
    "get_attribute (beatmarker env s b True) ''NAME'' = Some ''AutoGrid''"
    "get_attribute (autogrid env s) ''TYPE'' = Some ''0''"
    by (simp_all add: beatmarker_def autogrid_def get_attribute_def)
  show ?thesis
    by (simp add: run v bm ag an first ts len)
qed

text \<open>
  C6, on the code. The claim promises N beat markers for every track with N \<open>\<ge>\<close> 2
  \<^verbatim>\<open>TEMPO\<close> elements. \<open>set_track_info\<close> and \<open>add_info\<close> catch the error of
  \<^verbatim>\<open>float\<close> and fall back to a default; \<open>process_tempo\<close> defaults a missing
  \<^verbatim>\<open>Inizio\<close> or \<^verbatim>\<open>Bpm\<close> but converts a present one with a bare \<^verbatim>\<open>float\<close>. On a
  track with two \<^verbatim>\<open>TEMPO\<close> elements whose first \<^verbatim>\<open>Inizio\<close> is no number,
  processing the track raises \<^verbatim>\<open>ValueError\<close>: no marker is emitted and the conversion
  stops.
\<close>

theorem malformed_tempo_raises: "process_track sample_env track_bad_tempo (Elem ''COLLECTION'' [] []) new_converter = Inl ValueError"
  by (simp add: process_track_def set_track_info_def reset_track_def new_converter_def track_bad_tempo_def
      safe_float_def safe_get_attr_def py_float_def or_str_def get_attribute_def truthy_def Let_def
      sample_env_def fixed_of_str_def fixed_of_unsigned_def digit_val_def add_info_def
      process_tempo_def findall_def read_tempo_def)


lemma tempo_markers_in_source_order_example:
  "\<exists>added. process_tempo sample_env sample_info track_two_tempos (Elem ''ENTRY'' [] [])
             = Inr (Elem ''ENTRY'' [] added)
           \<and> map (\<lambda>c. (get_attribute c ''NAME'', get_attribute c ''TYPE'', get_attribute c ''START'')) added
               = [(Some ''AutoGrid'', Some ''4'', Some ''500.000000''),
                  (Some ''AutoGrid'', Some ''0'', Some ''500.000000''),
                  (Some ''Beat Marker'', Some ''4'', Some ''60500.000000'')]"
proof -
  have tempos: "findall ''TEMPO'' track_two_tempos =
      [Elem ''TEMPO'' [(''Inizio'', ''0.5''), (''Bpm'', ''128.00'')] [],
       Elem ''TEMPO'' [(''Inizio'', ''60.5''), (''Bpm'', ''130.00'')] []]"
    by (simp add: findall_def track_two_tempos_def)
  have r1: "read_tempo sample_env sample_info (Elem ''TEMPO'' [(''Inizio'', ''0.5''), (''Bpm'', ''128.00'')] [])
      = Inr (NFloat 500000000, 128000000)"
    by (simp add: read_tempo_def py_float_def sec_2_ms_def py_bool_def or_str_def get_attribute_def
        sample_env_def fixed_of_str_def fixed_of_unsigned_def digit_val_def)
  have r2: "read_tempo sample_env sample_info (Elem ''TEMPO'' [(''Inizio'', ''60.5''), (''Bpm'', ''130.00'')] [])
      = Inr (NFloat 60500000000, 130000000)"
    by (simp add: read_tempo_def py_float_def sec_2_ms_def py_bool_def or_str_def get_attribute_def
        sample_env_def fixed_of_str_def fixed_of_unsigned_def digit_val_def)
  have reads: "list_all2 (\<lambda>t v. read_tempo sample_env sample_info t = Inr v)
      (findall ''TEMPO'' track_two_tempos) [(NFloat 500000000, 128000000), (NFloat 60500000000, 130000000)]"
    by (simp add: tempos r1 r2)
  have many: "2 \<le> length (findall ''TEMPO'' track_two_tempos)"
    by (simp add: tempos)
  have f1: "num_fmt6 sample_env (NFloat 500000000) = ''500.000000''"
    by (simp add: num_fmt6_def sample_env_def fixed_fmt6_def str_nat.simps digit_char_def)
  have f2: "num_fmt6 sample_env (NFloat 60500000000) = ''60500.000000''"
    by (simp add: num_fmt6_def sample_env_def fixed_fmt6_def str_nat.simps digit_char_def)
  show ?thesis
    using tempo_markers_in_source_order [OF reads many, of "Elem ''ENTRY'' [] []"]
    by (simp add: beatmarker_def autogrid_def get_attribute_def f1 f2)
qed

section \<open>Cue translation: facts\<close>

lemma add_cue_Inr:
  assumes "add_cue env pm trk st = Inr (trk', st')"
  shows "\<exists>start_ms loop_length cue.
      sec_2_ms env (of_attr (get_attribute pm ''Start'')) = Inr start_ms
    \<and> (if truthy (get_attribute pm ''End'')
        then \<exists>end_ms. sec_2_ms env (of_attr (get_attribute pm ''End'')) = Inr end_ms
                \<and> loop_length = num_sub env end_ms start_ms
        else loop_length = NInt 0)
    \<and> cue = Elem ''CUE_V2''
               [(''NAME'', or_str (get_attribute pm ''Name'') ''n.n.''),
                (''DISPL_ORDER'', ''0''),
                (''TYPE'', get_cue_type env (get_attribute pm ''Type'')),
                (''START'', num_fmt6 env start_ms),
                (''LEN'', num_fmt6 env loop_length),
                (''REPEATS'', ''-1''),
                (''HOTCUE'', if truthy (get_attribute pm ''Num'') \<and> get_attribute pm ''Num'' \<noteq> Some ''-1''
                             then or_str (get_attribute pm ''Num'') [] else str_int (cue_index st))] []
    \<and> trk' = SubElement trk
               (if truthy (get_attribute pm ''Red'') \<and> truthy (get_attribute pm ''Green'')
                   \<and> truthy (get_attribute pm ''Blue'')
                then set_cue_color env cue (or_str (get_attribute pm ''Red'') [])
                       (or_str (get_attribute pm ''Green'') []) (or_str (get_attribute pm ''Blue'') [])
                else cue)
    \<and> st' = st\<lparr>cue_index := cue_index st + 1\<rparr>"
  using assms unfolding add_cue_def Let_def
  by (auto split: sum.splits if_splits)


lemma process_cues_loop_skip:
  "process_cues_loop env marks trk st =
     process_cues_loop env (filter (\<lambda>pm. get_attribute pm ''Name'' \<noteq> Some ''AutoGrid'') marks) trk st"
proof (induction marks arbitrary: trk st)
  case Nil
  show ?case by simp
next
  case (Cons pm marks)
  show ?case
    by (simp add: Cons.IH split: sum.splits prod.splits)
qed

lemma process_cues_loop_plain:
  assumes "process_cues_loop env marks trk st = Inr (trk', st')"
    and "\<forall>pm \<in> set marks. get_attribute pm ''Name'' \<noteq> Some ''AutoGrid''"
    and "\<forall>c r g b. get_attribute (set_cue_color env c r g b) ''HOTCUE'' = get_attribute c ''HOTCUE''"
  shows "\<exists>cues. trk' = Elem (tag trk) (attribs trk) (children trk @ cues)
      \<and> length cues = length marks
      \<and> (\<forall>i < length marks. get_attribute (cues ! i) ''HOTCUE'' =
            Some (if truthy (get_attribute (marks ! i) ''Num'') \<and> get_attribute (marks ! i) ''Num'' \<noteq> Some ''-1''
                  then or_str (get_attribute (marks ! i) ''Num'') [] else str_int (cue_index st + int i)))
      \<and> tracks st' = tracks st \<and> track_id_map st' = track_id_map st
      \<and> track_index st' = track_index st \<and> uuid_count st' = uuid_count st"
  using assms
proof (induction marks arbitrary: trk st)
  case Nil
  then show ?case by (cases trk) simp
next
  case (Cons pm marks)
  from Cons.prems(1,2) obtain t1 s1 where step: "add_cue env pm trk st = Inr (t1, s1)"
    and rest: "process_cues_loop env marks t1 s1 = Inr (trk', st')"
    by (auto split: sum.splits)
  from add_cue_Inr [OF step] obtain cue where t1: "t1 = SubElement trk cue"
    and s1: "s1 = st\<lparr>cue_index := cue_index st + 1\<rparr>"
    and hot: "get_attribute cue ''HOTCUE'' =
            Some (if truthy (get_attribute pm ''Num'') \<and> get_attribute pm ''Num'' \<noteq> Some ''-1''
                  then or_str (get_attribute pm ''Num'') [] else str_int (cue_index st))"
    using Cons.prems(3) by (auto simp: get_attribute_def split: if_splits)
  from Cons.prems(2) have plain: "\<forall>pm \<in> set marks. get_attribute pm ''Name'' \<noteq> Some ''AutoGrid''"
    by simp
  from Cons.IH [OF rest plain Cons.prems(3)] obtain cues where
    r: "trk' = Elem (tag t1) (attribs t1) (children t1 @ cues)"
    and l: "length cues = length marks"
    and h: "\<forall>i < length marks. get_attribute (cues ! i) ''HOTCUE'' =
            Some (if truthy (get_attribute (marks ! i) ''Num'') \<and> get_attribute (marks ! i) ''Num'' \<noteq> Some ''-1''
                  then or_str (get_attribute (marks ! i) ''Num'') [] else str_int (cue_index s1 + int i))"
    and f: "tracks st' = tracks s1" "track_id_map st' = track_id_map s1"
      "track_index st' = track_index s1" "uuid_count st' = uuid_count s1"
    by blast
  have idx: "\<forall>i < length (pm # marks). get_attribute ((cue # cues) ! i) ''HOTCUE'' =
            Some (if truthy (get_attribute ((pm # marks) ! i) ''Num'') \<and> get_attribute ((pm # marks) ! i) ''Num'' \<noteq> Some ''-1''
                  then or_str (get_attribute ((pm # marks) ! i) ''Num'') [] else str_int (cue_index st + int i))"
  proof (intro allI impI)
    fix i assume "i < length (pm # marks)"
    then show "get_attribute ((cue # cues) ! i) ''HOTCUE'' =
            Some (if truthy (get_attribute ((pm # marks) ! i) ''Num'') \<and> get_attribute ((pm # marks) ! i) ''Num'' \<noteq> Some ''-1''
                  then or_str (get_attribute ((pm # marks) ! i) ''Num'') [] else str_int (cue_index st + int i))"
    proof (cases i)
      case 0
      then show ?thesis using hot by simp
    next
      case (Suc j)
      with \<open>i < length (pm # marks)\<close> have "j < length marks" by simp
      with h have "get_attribute (cues ! j) ''HOTCUE'' =
            Some (if truthy (get_attribute (marks ! j) ''Num'') \<and> get_attribute (marks ! j) ''Num'' \<noteq> Some ''-1''
                  then or_str (get_attribute (marks ! j) ''Num'') [] else str_int (cue_index s1 + int j))"
        by blast
      moreover have "cue_index s1 + int j = cue_index st + int i"
        by (simp add: s1 Suc)
      ultimately show ?thesis by (simp only: Suc nth_Cons_Suc)
    qed
  qed
  show ?case
    using idx l f by (intro exI [of _ "cue # cues"]) (simp add: r t1 s1)
qed


text \<open>
  C8. Let the colour helper leave the \<^verbatim>\<open>LEN\<close> attribute of a cue as it is. Whenever
  \<open>add_cue\<close> emits a cue for a position mark, the start of the mark converts to
  milliseconds and the cue's \<^verbatim>\<open>LEN\<close> is the format of end minus start, both in
  milliseconds, when the mark has a non-empty \<^verbatim>\<open>End\<close>, and the format of the int 0
  otherwise. And \<open>process_cues\<close> does to the entry and the converter exactly what it
  does on the same marks without those named \<^verbatim>\<open>AutoGrid\<close>: such a mark produces no
  cue and leaves the cue index alone.
\<close>

theorem cue_loop_length_and_autogrid_skipped:
  assumes emitted: "add_cue env pm trk st = Inr (trk', st')"
    and keeps: "\<forall>c r g b. get_attribute (set_cue_color env c r g b) ''LEN'' = get_attribute c ''LEN''"
  shows "(\<exists>cue start_ms. trk' = SubElement trk cue
            \<and> sec_2_ms env (of_attr (get_attribute pm ''Start'')) = Inr start_ms
            \<and> (if truthy (get_attribute pm ''End'')
                then \<exists>end_ms. sec_2_ms env (of_attr (get_attribute pm ''End'')) = Inr end_ms
                        \<and> get_attribute cue ''LEN'' = Some (num_fmt6 env (num_sub env end_ms start_ms))
                else get_attribute cue ''LEN'' = Some (num_fmt6 env (NInt 0))))
       \<and> process_cues env track trk st =
           process_cues_loop env
             (filter (\<lambda>pm. get_attribute pm ''Name'' \<noteq> Some ''AutoGrid'') (findall ''POSITION_MARK'' track)) trk st"
proof
  from add_cue_Inr [OF emitted] obtain start_ms loop_length cue where
    start: "sec_2_ms env (of_attr (get_attribute pm ''Start'')) = Inr start_ms"
    and len: "if truthy (get_attribute pm ''End'')
        then \<exists>end_ms. sec_2_ms env (of_attr (get_attribute pm ''End'')) = Inr end_ms
                \<and> loop_length = num_sub env end_ms start_ms
        else loop_length = NInt 0"
    and cue_eq: "cue = Elem ''CUE_V2''
               [(''NAME'', or_str (get_attribute pm ''Name'') ''n.n.''),
                (''DISPL_ORDER'', ''0''),
                (''TYPE'', get_cue_type env (get_attribute pm ''Type'')),
                (''START'', num_fmt6 env start_ms),
                (''LEN'', num_fmt6 env loop_length),
                (''REPEATS'', ''-1''),
                (''HOTCUE'', if truthy (get_attribute pm ''Num'') \<and> get_attribute pm ''Num'' \<noteq> Some ''-1''
                             then or_str (get_attribute pm ''Num'') [] else str_int (cue_index st))] []"
    and trk': "trk' = SubElement trk
               (if truthy (get_attribute pm ''Red'') \<and> truthy (get_attribute pm ''Green'')
                   \<and> truthy (get_attribute pm ''Blue'')
                then set_cue_color env cue (or_str (get_attribute pm ''Red'') [])
                       (or_str (get_attribute pm ''Green'') []) (or_str (get_attribute pm ''Blue'') [])
                else cue)"
    by blast
  have cue: "get_attribute cue ''LEN'' = Some (num_fmt6 env loop_length)"
    by (simp add: cue_eq get_attribute_def)
  let ?cue = "if truthy (get_attribute pm ''Red'') \<and> truthy (get_attribute pm ''Green'')
                   \<and> truthy (get_attribute pm ''Blue'')
                then set_cue_color env cue (or_str (get_attribute pm ''Red'') [])
                       (or_str (get_attribute pm ''Green'') []) (or_str (get_attribute pm ''Blue'') [])
                else cue"
  have "get_attribute ?cue ''LEN'' = Some (num_fmt6 env loop_length)"
    using keeps cue by simp
  with len have "if truthy (get_attribute pm ''End'')
                then \<exists>end_ms. sec_2_ms env (of_attr (get_attribute pm ''End'')) = Inr end_ms
                        \<and> get_attribute ?cue ''LEN'' = Some (num_fmt6 env (num_sub env end_ms start_ms))
                else get_attribute ?cue ''LEN'' = Some (num_fmt6 env (NInt 0))"
    by (cases "truthy (get_attribute pm ''End'')") auto
  with start trk'
  show "\<exists>cue start_ms. trk' = SubElement trk cue
            \<and> sec_2_ms env (of_attr (get_attribute pm ''Start'')) = Inr start_ms
            \<and> (if truthy (get_attribute pm ''End'')
                then \<exists>end_ms. sec_2_ms env (of_attr (get_attribute pm ''End'')) = Inr end_ms
                        \<and> get_attribute cue ''LEN'' = Some (num_fmt6 env (num_sub env end_ms start_ms))
                else get_attribute cue ''LEN'' = Some (num_fmt6 env (NInt 0)))"
    by blast
next
  show "process_cues env track trk st =
           process_cues_loop env
             (filter (\<lambda>pm. get_attribute pm ''Name'' \<noteq> Some ''AutoGrid'') (findall ''POSITION_MARK'' track)) trk st"
    unfolding process_cues_def by (rule process_cues_loop_skip)
qed

lemma sample_keeps: "get_attribute (set_cue_color sample_env c r g b) k = (if k = ''COLOR'' then Some (r @ '','' @ g @ '','' @ b) else get_attribute c k)"
  by (simp add: sample_env_def get_attribute_set_attrib)

theorem cue_loop_length_and_autogrid_skipped_witness:
  "\<exists>cue. add_cue sample_env mark_loop (Elem ''ENTRY'' [] []) new_converter
            = Inr (SubElement (Elem ''ENTRY'' [] []) cue, new_converter\<lparr>cue_index := 1\<rparr>)
         \<and> get_attribute cue ''LEN'' = Some ''1000.000000''"
proof -
  have s: "sec_2_ms sample_env (of_attr (get_attribute mark_loop ''Start'')) = Inr (NFloat 1500000000)"
    by (simp add: sec_2_ms_def of_attr_def py_bool_def py_float_def get_attribute_def mark_loop_def
        sample_env_def fixed_of_str_def fixed_of_unsigned_def digit_val_def)
  have e: "sec_2_ms sample_env (of_attr (get_attribute mark_loop ''End'')) = Inr (NFloat 2500000000)"
    by (simp add: sec_2_ms_def of_attr_def py_bool_def py_float_def get_attribute_def mark_loop_def
        sample_env_def fixed_of_str_def fixed_of_unsigned_def digit_val_def)
  have t: "truthy (get_attribute mark_loop ''End'')"
    by (simp add: truthy_def get_attribute_def mark_loop_def)
  have f: "num_fmt6 sample_env (num_sub sample_env (NFloat 2500000000) (NFloat 1500000000)) = ''1000.000000''"
    by (simp add: num_fmt6_def num_sub_def sample_env_def fixed_fmt6_def str_nat.simps digit_char_def)
  have "\<exists>trk'. add_cue sample_env mark_loop (Elem ''ENTRY'' [] []) new_converter
            = Inr (trk', new_converter\<lparr>cue_index := 1\<rparr>)"
    by (simp add: add_cue_def Let_def new_converter_def truthy_def get_attribute_def mark_loop_def
        sec_2_ms_def of_attr_def py_bool_def py_float_def sample_env_def fixed_of_str_def
        fixed_of_unsigned_def digit_val_def)
  then obtain trk' where emitted: "add_cue sample_env mark_loop (Elem ''ENTRY'' [] []) new_converter
            = Inr (trk', new_converter\<lparr>cue_index := 1\<rparr>)" ..
  have keeps: "\<forall>c r g b. get_attribute (set_cue_color sample_env c r g b) ''LEN'' = get_attribute c ''LEN''"
    by (simp add: sample_keeps)
  show ?thesis
    using cue_loop_length_and_autogrid_skipped [OF emitted keeps] by (auto simp: emitted s e t f)
qed

text \<open>
  C9. Let the colour helper leave the \<^verbatim>\<open>HOTCUE\<close> attribute of a cue as it is. When
  \<open>process_track\<close> returns, the entry it added ends with one cue for each position mark
  not named \<^verbatim>\<open>AutoGrid\<close>, in source order, and the \<^verbatim>\<open>HOTCUE\<close> of the cue at
  position \<open>i\<close> (from 0) is the mark's \<^verbatim>\<open>Num\<close> when that is non-empty and not
  \<^verbatim>\<open>"-1"\<close>, and otherwise the decimal string of \<open>1 + i\<close>: the index starts at 1 for
  each track and advances by one with every cue emitted.
\<close>

theorem hotcue_slot_assignment:
  assumes run: "process_track env track collection st = Inr (ok, collection', st')"
    and keeps: "\<forall>c r g b. get_attribute (set_cue_color env c r g b) ''HOTCUE'' = get_attribute c ''HOTCUE''"
    and marks: "marks = filter (\<lambda>pm. get_attribute pm ''Name'' \<noteq> Some ''AutoGrid'') (findall ''POSITION_MARK'' track)"
  shows "\<exists>entry pre cues. collection' = SubElement collection entry \<and> children entry = pre @ cues
      \<and> length cues = length marks
      \<and> (\<forall>i < length marks. get_attribute (cues ! i) ''HOTCUE'' =
            Some (if truthy (get_attribute (marks ! i) ''Num'') \<and> get_attribute (marks ! i) ''Num'' \<noteq> Some ''-1''
                  then or_str (get_attribute (marks ! i) ''Num'') [] else str_int (1 + int i)))"
proof -
  obtain info st1 where info: "set_track_info env track (reset_track st) = Inr (info, st1)"
    and ci: "cue_index st1 = cue_index (reset_track st)"
    using set_track_info_bpm [of env track "reset_track st"] by blast
  from run info obtain trk1 trk2 st2 where
    cues: "process_cues env track trk1 st1 = Inr (trk2, st2)"
    and coll: "collection' = SubElement collection trk2"
    by (auto simp: process_track_def split: sum.splits)
  have one: "cue_index st1 = 1"
    using ci by (simp add: reset_track_def)
  have loop: "process_cues_loop env marks trk1 st1 = Inr (trk2, st2)"
    using cues unfolding process_cues_def marks by (simp add: process_cues_loop_skip [symmetric])
  have plain: "\<forall>pm \<in> set marks. get_attribute pm ''Name'' \<noteq> Some ''AutoGrid''"
    by (simp add: marks)
  from process_cues_loop_plain [OF loop plain keeps] one
  obtain cs where "trk2 = Elem (tag trk1) (attribs trk1) (children trk1 @ cs)"
    and "length cs = length marks"
    and "\<forall>i < length marks. get_attribute (cs ! i) ''HOTCUE'' =
            Some (if truthy (get_attribute (marks ! i) ''Num'') \<and> get_attribute (marks ! i) ''Num'' \<noteq> Some ''-1''
                  then or_str (get_attribute (marks ! i) ''Num'') [] else str_int (1 + int i))"
    by auto
  then show ?thesis
    using coll by (intro exI [of _ trk2] exI [of _ "children trk1"] exI [of _ cs]) simp
qed


theorem hotcue_slot_assignment_witness:
  "\<exists>ok collection' st' entry pre cues.
      process_track sample_env track_with_cues (Elem ''COLLECTION'' [] []) new_converter = Inr (ok, collection', st')
    \<and> collection' = SubElement (Elem ''COLLECTION'' [] []) entry \<and> children entry = pre @ cues
    \<and> length cues = 3
    \<and> get_attribute (cues ! 0) ''HOTCUE'' = Some ''1''
    \<and> get_attribute (cues ! 1) ''HOTCUE'' = Some ''5''
    \<and> get_attribute (cues ! 2) ''HOTCUE'' = Some ''3''"
proof -
  let ?marks = "[Elem ''POSITION_MARK'' [(''Name'', ''Intro''), (''Type'', ''0''), (''Start'', ''1.0''), (''Num'', ''-1'')] [],
        Elem ''POSITION_MARK'' [(''Name'', ''Verse''), (''Type'', ''0''), (''Start'', ''2.0''), (''Num'', ''5'')] [],
        Elem ''POSITION_MARK'' [(''Name'', ''Outro''), (''Type'', ''0''), (''Start'', ''3.0'')] []]"
  have "\<exists>c s. process_track sample_env track_with_cues (Elem ''COLLECTION'' [] []) new_converter = Inr (True, c, s)"
    by (simp add: process_track_def set_track_info_def reset_track_def new_converter_def track_with_cues_def
      safe_float_def safe_get_attr_def py_float_def py_bool_def or_str_def get_attribute_def truthy_def Let_def
      sample_env_def fixed_of_str_def fixed_of_unsigned_def digit_val_def add_info_def
      process_tempo_def findall_def process_cues_def add_cue_def sec_2_ms_def of_attr_def)
  then obtain c s where run:
    "process_track sample_env track_with_cues (Elem ''COLLECTION'' [] []) new_converter = Inr (True, c, s)"
    by blast
  have keeps: "\<forall>c r g b. get_attribute (set_cue_color sample_env c r g b) ''HOTCUE'' = get_attribute c ''HOTCUE''"
    by (simp add: sample_keeps)
  have marks: "?marks = filter (\<lambda>pm. get_attribute pm ''Name'' \<noteq> Some ''AutoGrid'')
                 (findall ''POSITION_MARK'' track_with_cues)"
    by (simp add: findall_def track_with_cues_def get_attribute_def)
  from hotcue_slot_assignment [OF run keeps marks] obtain entry pre cues where
    c: "c = SubElement (Elem ''COLLECTION'' [] []) entry" and e: "children entry = pre @ cues"
    and l: "length cues = length ?marks"
    and h: "\<forall>i < length ?marks. get_attribute (cues ! i) ''HOTCUE'' =
            Some (if truthy (get_attribute (?marks ! i) ''Num'') \<and> get_attribute (?marks ! i) ''Num'' \<noteq> Some ''-1''
                  then or_str (get_attribute (?marks ! i) ''Num'') [] else str_int (1 + int i))"
    by blast
  have h0: "get_attribute (cues ! 0) ''HOTCUE'' = Some ''1''"
    using h [rule_format, of 0]
    by (simp add: get_attribute_def truthy_def or_str_def str_int_def str_nat.simps digit_char_def)
  have h1: "get_attribute (cues ! 1) ''HOTCUE'' = Some ''5''"
    using h [rule_format, of 1]
    by (simp add: get_attribute_def truthy_def or_str_def str_int_def str_nat.simps digit_char_def)
  have h2: "get_attribute (cues ! 2) ''HOTCUE'' = Some ''3''"
    using h [rule_format, of 2]
    by (simp add: get_attribute_def truthy_def or_str_def str_int_def str_nat.simps digit_char_def)
  from run c e l h0 h1 h2 show ?thesis
    by (intro exI [of _ True] exI [of _ c] exI [of _ s] exI [of _ entry] exI [of _ pre] exI [of _ cues]) simp
qed


section \<open>The track loop: facts\<close>

lemma process_cues_loop_fields:
  assumes "process_cues_loop env marks trk st = Inr (trk', st')"
  shows "tracks st' = tracks st \<and> track_id_map st' = track_id_map st
      \<and> track_index st' = track_index st \<and> uuid_count st' = uuid_count st"
  using assms
proof (induction marks arbitrary: trk st)
  case Nil
  then show ?case by simp
next
  case (Cons pm marks)
  show ?case
  proof (cases "get_attribute pm ''Name'' = Some ''AutoGrid''")
    case True
    with Cons.prems have "process_cues_loop env marks trk st = Inr (trk', st')" by simp
    from Cons.IH [OF this] show ?thesis .
  next
    case False
    with Cons.prems obtain t1 s1 where step: "add_cue env pm trk st = Inr (t1, s1)"
      and rest: "process_cues_loop env marks t1 s1 = Inr (trk', st')"
      by (auto split: sum.splits)
    from add_cue_Inr [OF step] have "s1 = st\<lparr>cue_index := cue_index st + 1\<rparr>" by blast
    with Cons.IH [OF rest] show ?thesis by simp
  qed
qed

lemma process_track_Inr:
  assumes "process_track env track collection st = Inr (ok, collection', st')"
  shows "ok \<and> (\<exists>entry. collection' = SubElement collection entry) \<and> tracks st' = tracks st
      \<and> track_id_map st' = track_id_map st \<and> track_index st' = track_index st"
proof -
  obtain info st1 where info: "set_track_info env track (reset_track st) = Inr (info, st1)"
    and f: "tracks st1 = tracks (reset_track st)" "track_id_map st1 = track_id_map (reset_track st)"
      "track_index st1 = track_index (reset_track st)"
    using set_track_info_bpm [of env track "reset_track st"] by blast
  from assms info obtain trk1 trk2 where
    cues: "process_cues env track trk1 st1 = Inr (trk2, st')"
    and coll: "collection' = SubElement collection trk2" and ok: ok
    by (auto simp: process_track_def split: sum.splits)
  from process_cues_loop_fields [OF cues [unfolded process_cues_def]] f ok coll
  show ?thesis by (auto simp: reset_track_def)
qed

lemma process_track_returns:
  assumes "findall ''TEMPO'' track = []" and "findall ''POSITION_MARK'' track = []"
    and "\<forall>x. \<exists>i. float_to_int env x = Inr i"
  shows "\<exists>c s. process_track env track collection st = Inr (True, c, s)"
proof -
  obtain info st1 where info: "set_track_info env track (reset_track st) = Inr (info, st1)"
    using set_track_info_bpm [of env track "reset_track st"] by blast
  from assms(3) obtain i where i: "float_to_int env (bitrate info) = Inr i" by blast
  have "\<exists>t. add_info env info trk = Inr t" for trk
    by (simp add: add_info_def Let_def i py_float_str split: option.splits)
  then obtain t where t: "add_info env info (add_modification_info (add_album info (add_location env info (add_entry env info)))) = Inr t"
    by blast
  show ?thesis
    by (simp add: process_track_def info t process_tempo_def assms(1) process_cues_def assms(2))
qed

lemma tracks_loop:
  assumes "process_tracks_loop env entries collection st = Inr (collection', st')"
  shows "tracks st' = tracks st @ map (file_path_of env) entries
    \<and> (\<exists>es. collection' = Elem (tag collection) (attribs collection) (children collection @ es)
             \<and> length es = length entries)
    \<and> (\<forall>k. track_id_map st' k =
          (if filter (\<lambda>t. get_attribute t ''TrackID'' = Some k \<and> k \<noteq> []) entries = []
           then track_id_map st k
           else Some (file_path_of env (last (filter (\<lambda>t. get_attribute t ''TrackID'' = Some k \<and> k \<noteq> []) entries)))))"
  using assms
proof (induction entries arbitrary: collection st)
  case Nil
  then show ?case by (cases collection) simp
next
  case (Cons t ts)
  from Cons.prems obtain ok c1 s1 where pt: "process_track env t collection st = Inr (ok, c1, s1)"
    by (auto simp: Let_def split: sum.splits)
  from process_track_Inr [OF pt] obtain entry where ok: ok and c1: "c1 = SubElement collection entry"
    and f: "tracks s1 = tracks st" "track_id_map s1 = track_id_map st" "track_index s1 = track_index st"
    by blast
  define s2 where "s2 = s1\<lparr>tracks := tracks s1 @ [file_path_of env t]\<rparr>"
  define s3 where "s3 = (if truthy (get_attribute t ''TrackID'')
      then s2\<lparr>track_id_map := (track_id_map s2)(or_str (get_attribute t ''TrackID'') [] \<mapsto> file_path_of env t)\<rparr>
      else s2)"
  from Cons.prems pt ok have rest:
    "process_tracks_loop env ts c1 (s3\<lparr>track_index := track_index s3 + 1\<rparr>) = Inr (collection', st')"
    by (cases "truthy (get_attribute t ''TrackID'')") (simp_all add: Let_def s2_def s3_def)
  note IH = Cons.IH [OF rest]
  have tr: "tracks st' = tracks st @ map (file_path_of env) (t # ts)"
    using IH f by (simp add: s3_def s2_def)
  from IH obtain es where es: "collection' = Elem (tag c1) (attribs c1) (children c1 @ es)"
    and les: "length es = length ts" by blast
  have col: "\<exists>es. collection' = Elem (tag collection) (attribs collection) (children collection @ es)
             \<and> length es = length (t # ts)"
    using es les by (intro exI [of _ "entry # es"]) (simp add: c1)
  have mp: "track_id_map st' k =
          (if filter (\<lambda>t. get_attribute t ''TrackID'' = Some k \<and> k \<noteq> []) (t # ts) = []
           then track_id_map st k
           else Some (file_path_of env (last (filter (\<lambda>t. get_attribute t ''TrackID'' = Some k \<and> k \<noteq> []) (t # ts)))))" for k
  proof -
    let ?P = "\<lambda>t. get_attribute t ''TrackID'' = Some k \<and> k \<noteq> []"
    have m3: "track_id_map s3 k = (if ?P t then Some (file_path_of env t) else track_id_map st k)"
      using f by (auto simp: s3_def s2_def truthy_def or_str_def split: option.splits)
    from IH have "track_id_map st' k =
          (if filter ?P ts = [] then track_id_map (s3\<lparr>track_index := track_index s3 + 1\<rparr>) k
           else Some (file_path_of env (last (filter ?P ts))))"
      by blast
    then show ?thesis using m3 by simp
  qed
  from tr col mp show ?case by blast
qed


lemma sample_float_to_int: "\<forall>x. \<exists>i. float_to_int sample_env x = Inr i"
  by (simp add: sample_env_def)

lemma single_track_loop:
  assumes "findall ''TEMPO'' t = []" and "findall ''POSITION_MARK'' t = []"
    and "\<forall>x. \<exists>i. float_to_int env x = Inr i"
  shows "\<exists>c s. process_tracks_loop env [t] collection st = Inr (c, s)"
proof -
  from process_track_returns [OF assms] obtain c s where
    "process_track env t collection st = Inr (True, c, s)" by blast
  then show ?thesis by (simp add: Let_def)
qed

text \<open>
  C2, amended. After the track loop has returned, the collection has one more entry for
  each source track, and for every source track whose \<^verbatim>\<open>TrackID\<close> is present and
  non-empty the lookup table has an entry under that identifier: the path built for the
  last source track that bears it. This is the table \<open>convert_xml_to_nml\<close> hands to
  \<open>process_playlists\<close>. A track without an identifier gets a collection entry and no
  table entry.
\<close>

theorem identified_tracks_are_in_lookup_table:
  assumes loop: "process_tracks_loop env entries collection st = Inr (collection', st')"
    and t: "t \<in> set entries" and tid: "get_attribute t ''TrackID'' = Some k" and k: "k \<noteq> []"
  shows "(\<exists>es. collection' = Elem (tag collection) (attribs collection) (children collection @ es)
              \<and> length es = length entries)
       \<and> track_id_map st' k
           = Some (file_path_of env (last (filter (\<lambda>t'. get_attribute t' ''TrackID'' = Some k) entries)))
       \<and> last (filter (\<lambda>t'. get_attribute t' ''TrackID'' = Some k) entries) \<in> set entries"
proof -
  let ?ms = "filter (\<lambda>t'. get_attribute t' ''TrackID'' = Some k) entries"
  have same: "filter (\<lambda>t'. get_attribute t' ''TrackID'' = Some k \<and> k \<noteq> []) entries = ?ms"
    using k by simp
  have ne: "?ms \<noteq> []"
    using t tid by (auto simp: filter_empty_conv)
  then have "last ?ms \<in> set ?ms" by (rule last_in_set)
  then have mem: "last ?ms \<in> set entries" by simp
  from tracks_loop [OF loop] have
    col: "\<exists>es. collection' = Elem (tag collection) (attribs collection) (children collection @ es)
              \<and> length es = length entries"
    and mp: "track_id_map st' k =
          (if filter (\<lambda>t. get_attribute t ''TrackID'' = Some k \<and> k \<noteq> []) entries = []
           then track_id_map st k
           else Some (file_path_of env (last (filter (\<lambda>t. get_attribute t ''TrackID'' = Some k \<and> k \<noteq> []) entries))))"
    by blast+
  from mp ne have "track_id_map st' k = Some (file_path_of env (last ?ms))"
    unfolding same by simp
  with col mem show ?thesis by blast
qed

theorem identified_tracks_are_in_lookup_table_witness:
  "\<exists>collection' st'. process_tracks_loop sample_env [scenario_track] (add_collection [scenario_track]) new_converter
       = Inr (collection', st')
     \<and> length (children collection') = 1
     \<and> track_id_map st' ''1'' = Some ''disk/:a.mp3''"
proof -
  have "\<exists>c s. process_tracks_loop sample_env [scenario_track] (add_collection [scenario_track]) new_converter = Inr (c, s)"
    by (rule single_track_loop) (simp_all add: findall_def scenario_track_def sample_float_to_int)
  then obtain c s where loop:
    "process_tracks_loop sample_env [scenario_track] (add_collection [scenario_track]) new_converter = Inr (c, s)"
    by blast
  have tid: "get_attribute scenario_track ''TrackID'' = Some ''1''"
    by (simp add: get_attribute_def scenario_track_def)
  have path: "file_path_of sample_env scenario_track = ''disk/:a.mp3''"
    by (simp add: file_path_of_def sample_env_def get_attribute_def scenario_track_def or_str_def)
  have mem: "scenario_track \<in> set [scenario_track]" by simp
  have k: "''1'' \<noteq> []" by simp
  from identified_tracks_are_in_lookup_table [OF loop mem tid k] have len: "length (children c) = 1"
    and mp: "track_id_map s ''1'' = Some ''disk/:a.mp3''"
    by (auto simp: tid path add_collection_def)
  with loop show ?thesis by blast
qed

text \<open>
  C2, as stated, fails: the table is written under the guard \<^verbatim>\<open>if track_id:\<close>. For a
  single track without \<^verbatim>\<open>TrackID\<close> the loop returns, the collection holds one entry
  and the lookup table is empty.
\<close>

theorem track_without_id_has_no_lookup_entry:
  "\<not> isl (process_tracks_loop sample_env [track_without_id] (add_collection [track_without_id]) new_converter)
   \<and> length (children (fst (projr
        (process_tracks_loop sample_env [track_without_id] (add_collection [track_without_id]) new_converter)))) = 1
   \<and> track_id_map (snd (projr
        (process_tracks_loop sample_env [track_without_id] (add_collection [track_without_id]) new_converter)))
       = Map.empty"
proof -
  have "\<exists>c s. process_tracks_loop sample_env [track_without_id] (add_collection [track_without_id]) new_converter = Inr (c, s)"
    by (rule single_track_loop) (simp_all add: findall_def track_without_id_def sample_float_to_int)
  then obtain c s where loop:
    "process_tracks_loop sample_env [track_without_id] (add_collection [track_without_id]) new_converter = Inr (c, s)"
    by blast
  have none: "get_attribute track_without_id ''TrackID'' = None"
    by (simp add: get_attribute_def track_without_id_def)
  from tracks_loop [OF loop] have "track_id_map s k = None" for k
    by (simp add: none new_converter_def)
  then have "track_id_map s = Map.empty" by (intro ext) simp
  moreover from tracks_loop [OF loop] have "length (children c) = 1"
    by (auto simp: add_collection_def)
  ultimately show ?thesis by (simp add: loop del: process_tracks_loop.simps)
qed


section \<open>From the track loop to the playlists\<close>

text \<open>
  C5. Let the track loop of \<open>convert_xml_to_nml\<close> return with the converter \<open>st1\<close>,
  and let a playlist node be translated with the lookup table of \<open>st1\<close>. The entries of
  the destination playlist are the primary-key entries of the paths its references
  resolve to, in source order. For every reference whose \<^verbatim>\<open>Key\<close> is a key of the table,
  the \<^verbatim>\<open>KEY\<close> emitted is the table's value, and that value is the very string built
  in the track loop for a source track with this \<^verbatim>\<open>TrackID\<close> (the last one, should
  several bear it): its volume, directory and file name, concatenated.
\<close>

theorem playlist_key_is_track_path:
  assumes loop: "process_tracks_loop env entries collection (st\<lparr>tracks := [], track_id_map := Map.empty\<rparr>)
                   = Inr (collection', st1)"
    and same: "track_id_map st2 = track_id_map st1"
    and name: "truthy (get_attribute node ''Name'')" and type: "get_attribute node ''Type'' = Some ''1''"
    and refs: "findall ''TRACK'' node \<noteq> []"
  shows "\<exists>pl. process_playlist_node env node (parent, st2) =
            (SubElement parent
               (Elem ''NODE'' [(''TYPE'', ''PLAYLIST''), (''NAME'', or_str (get_attribute node ''Name'') [])] [pl]),
             st2\<lparr>uuid_count := Suc (uuid_count st2)\<rparr>)
          \<and> children pl = map primary_key_entry
                (List.map_filter (resolved_path (track_id_map st1)) (findall ''TRACK'' node))
          \<and> (\<forall>r \<in> set (findall ''TRACK'' node). \<forall>k p.
                get_attribute r ''Key'' = Some k \<and> track_id_map st1 k = Some p \<longrightarrow>
                  resolved_path (track_id_map st1) r = Some p
                  \<and> primary_key_entry p \<in> set (children pl)
                  \<and> filter (\<lambda>t. get_attribute t ''TrackID'' = Some k) entries \<noteq> []
                  \<and> p = file_path_of env (last (filter (\<lambda>t. get_attribute t ''TrackID'' = Some k) entries)))
          \<and> (\<forall>t. file_path_of env t =
                VOLUME (get_location env (get_attribute t ''Location''))
                @ DIR (get_location env (get_attribute t ''Location''))
                @ FILE (get_location env (get_attribute t ''Location'')))"
proof -
  let ?refs = "findall ''TRACK'' node"
  let ?pl = "Elem ''PLAYLIST''
              [(''ENTRIES'', str_int (int (length ?refs))),
               (''TYPE'', ''LIST''),
               (''UUID'', uuid4_hex env (uuid_count st2))]
              (map primary_key_entry (List.map_filter (resolved_path (track_id_map st2)) ?refs))"
  have table: "track_id_map st1 k =
          (if filter (\<lambda>t. get_attribute t ''TrackID'' = Some k \<and> k \<noteq> []) entries = []
           then None
           else Some (file_path_of env (last (filter (\<lambda>t. get_attribute t ''TrackID'' = Some k \<and> k \<noteq> []) entries))))" for k
    using tracks_loop [OF loop] by simp
  have key: "resolved_path (track_id_map st1) r = Some p
                  \<and> primary_key_entry p \<in> set (children ?pl)
                  \<and> filter (\<lambda>t. get_attribute t ''TrackID'' = Some k) entries \<noteq> []
                  \<and> p = file_path_of env (last (filter (\<lambda>t. get_attribute t ''TrackID'' = Some k) entries))"
    if r: "r \<in> set ?refs" and k: "get_attribute r ''Key'' = Some k" and p: "track_id_map st1 k = Some p"
    for r k p
  proof -
    have ne: "k \<noteq> []"
      using table [of k] p by (auto split: if_splits)
    then have eq: "filter (\<lambda>t. get_attribute t ''TrackID'' = Some k \<and> k \<noteq> []) entries
        = filter (\<lambda>t. get_attribute t ''TrackID'' = Some k) entries"
      by simp
    have res: "resolved_path (track_id_map st1) r = Some p"
      using k p ne by (simp add: resolved_path_def truthy_def or_str_def)
    then have "p \<in> set (List.map_filter (resolved_path (track_id_map st1)) ?refs)"
      using r by (auto simp: List.map_filter_def intro!: image_eqI [of _ _ r])
    then have mem: "primary_key_entry p \<in> set (children ?pl)"
      by (simp add: same)
    from table [of k] p have "filter (\<lambda>t. get_attribute t ''TrackID'' = Some k) entries \<noteq> []"
      and "p = file_path_of env (last (filter (\<lambda>t. get_attribute t ''TrackID'' = Some k) entries))"
      unfolding eq by (auto split: if_splits)
    with res mem show ?thesis by blast
  qed
  have run: "process_playlist_node env node (parent, st2) =
            (SubElement parent
               (Elem ''NODE'' [(''TYPE'', ''PLAYLIST''), (''NAME'', or_str (get_attribute node ''Name'') [])] [?pl]),
             st2\<lparr>uuid_count := Suc (uuid_count st2)\<rparr>)"
    by (rule playlist_node_result [OF name type refs])
  have ch: "children ?pl = map primary_key_entry (List.map_filter (resolved_path (track_id_map st1)) ?refs)"
    by (simp add: same)
  have path: "\<forall>t. file_path_of env t =
                VOLUME (get_location env (get_attribute t ''Location''))
                @ DIR (get_location env (get_attribute t ''Location''))
                @ FILE (get_location env (get_attribute t ''Location''))"
    by (simp add: file_path_of_def Let_def)
  from run ch key path show ?thesis
    by (intro exI [of _ ?pl] conjI) blast+
qed

theorem playlist_key_is_track_path_witness:
  "\<exists>collection' st1 pl.
      process_tracks_loop sample_env [scenario_track] (add_collection [scenario_track])
        (new_converter\<lparr>tracks := [], track_id_map := Map.empty\<rparr>) = Inr (collection', st1)
    \<and> process_playlist_node sample_env playlist_mixed (Elem ''SUBNODES'' [] [], st1) =
            (SubElement (Elem ''SUBNODES'' [] [])
               (Elem ''NODE'' [(''TYPE'', ''PLAYLIST''), (''NAME'', ''Mix'')] [pl]),
             st1\<lparr>uuid_count := Suc (uuid_count st1)\<rparr>)
    \<and> children pl = [primary_key_entry ''disk/:a.mp3'']
    \<and> file_path_of sample_env scenario_track = ''disk/:a.mp3''"
proof -
  have "\<exists>c s. process_tracks_loop sample_env [scenario_track] (add_collection [scenario_track])
        (new_converter\<lparr>tracks := [], track_id_map := Map.empty\<rparr>) = Inr (c, s)"
    by (rule single_track_loop) (simp_all add: findall_def scenario_track_def sample_float_to_int)
  then obtain c s where loop:
    "process_tracks_loop sample_env [scenario_track] (add_collection [scenario_track])
        (new_converter\<lparr>tracks := [], track_id_map := Map.empty\<rparr>) = Inr (c, s)"
    by blast
  have refs: "findall ''TRACK'' playlist_mixed
      = [Elem ''TRACK'' [(''Key'', ''1'')] [], Elem ''TRACK'' [(''Key'', ''9'')] []]"
    by (simp add: findall_def playlist_mixed_def)
  have h1: "truthy (get_attribute playlist_mixed ''Name'')"
    by (simp add: truthy_def get_attribute_def playlist_mixed_def)
  have h2: "get_attribute playlist_mixed ''Type'' = Some ''1''"
    by (simp add: get_attribute_def playlist_mixed_def)
  have h3: "findall ''TRACK'' playlist_mixed \<noteq> []"
    by (simp add: refs)
  have nm: "or_str (get_attribute playlist_mixed ''Name'') [] = ''Mix''"
    by (simp add: or_str_def get_attribute_def playlist_mixed_def)
  have path: "file_path_of sample_env scenario_track = ''disk/:a.mp3''"
    by (simp add: file_path_of_def sample_env_def get_attribute_def scenario_track_def or_str_def)
  have tid: "get_attribute scenario_track ''TrackID'' = Some ''1''"
    by (simp add: get_attribute_def scenario_track_def)
  from tracks_loop [OF loop] have m1: "track_id_map s ''1'' = Some ''disk/:a.mp3''"
    and m9: "track_id_map s ''9'' = None"
    by (simp_all add: tid path new_converter_def)
  have res: "List.map_filter (resolved_path (track_id_map s)) (findall ''TRACK'' playlist_mixed) = [''disk/:a.mp3'']"
    by (simp add: refs List.map_filter_simps resolved_path_def truthy_def or_str_def get_attribute_def m1 m9)
  from playlist_key_is_track_path [OF loop refl h1 h2 h3, of "Elem ''SUBNODES'' [] []"] obtain pl where
    "process_playlist_node sample_env playlist_mixed (Elem ''SUBNODES'' [] [], s) =
            (SubElement (Elem ''SUBNODES'' [] [])
               (Elem ''NODE'' [(''TYPE'', ''PLAYLIST''), (''NAME'', ''Mix'')] [pl]),
             s\<lparr>uuid_count := Suc (uuid_count s)\<rparr>)"
    and "children pl = [primary_key_entry ''disk/:a.mp3'']"
    unfolding nm res by auto
  with loop path show ?thesis by blast
qed


section \<open>The whole conversion: facts\<close>

lemma scenario_entries:
  "findall_desc ''TRACK'' scenario_doc = [scenario_track, Elem ''TRACK'' [(''Key'', ''1'')] []]"
  by (simp add: findall_desc_def scenario_doc_def scenario_track_def)

lemma plain_tracks_loop:
  assumes "\<forall>t \<in> set ts. findall ''TEMPO'' t = [] \<and> findall ''POSITION_MARK'' t = []"
    and "\<forall>x. \<exists>i. float_to_int env x = Inr i"
  shows "\<exists>c s. process_tracks_loop env ts collection st = Inr (c, s)"
  using assms(1)
proof (induction ts arbitrary: collection st)
  case Nil
  show ?case by simp
next
  case (Cons t ts)
  from Cons.prems have "findall ''TEMPO'' t = []" and "findall ''POSITION_MARK'' t = []"
    and rest: "\<forall>t \<in> set ts. findall ''TEMPO'' t = [] \<and> findall ''POSITION_MARK'' t = []"
    by simp_all
  from process_track_returns [OF this(1,2) assms(2)] obtain c s where
    pt: "process_track env t collection st = Inr (True, c, s)" by blast
  show ?case
    using Cons.IH [OF rest] by (simp add: pt Let_def)
qed

lemma playlist_tracks_kept:
  "tracks (snd (process_playlist_node env n ps)) = tracks (snd ps)"
  "tracks (fst (snd (process_child_nodes env cs acc))) = tracks (fst (snd acc))"
proof (induction env n ps and env cs acc rule: process_playlist_node_process_child_nodes.induct)
  case (1 env rekordbox_node parent_subnodes st)
  show ?case
    using 1 by (auto simp: process_playlist_node.simps Let_def split: prod.splits)
next
  case (2 env acc)
  show ?case by simp
next
  case (3 env child rest subnodes st child_count)
  obtain s1 st1 where step: "process_playlist_node env child (subnodes, st) = (s1, st1)"
    by (cases "process_playlist_node env child (subnodes, st)") auto
  from 3 step show ?case by simp
qed

lemma process_playlists_shape:
  assumes "process_playlists env doc root st = (root', st')"
  shows "\<exists>added. root' = Elem (tag root) (attribs root) (children root @ added)
      \<and> (\<forall>a \<in> set added. tag a = ''PLAYLISTS'') \<and> tracks st' = tracks st"
proof (cases "find_first ''PLAYLISTS'' doc")
  case None
  with assms show ?thesis
    by (intro exI [of _ "[last (children root')]"])
       (auto simp: process_playlists_def add_default_playlist_def playlists_section_def SubElement_def)
next
  case (Some playlists)
  show ?thesis
  proof (cases "find_first ''NODE'' playlists")
    case None
    with Some assms show ?thesis
      by (intro exI [of _ "[playlists_section [Elem ''SUBNODES'' [] []], last (children root')]"])
         (auto simp: process_playlists_def add_default_playlist_def playlists_section_def SubElement_def)
  next
    case (Some root_node)
    obtain subs s2 cnt where loop:
      "process_child_nodes env (findall ''NODE'' root_node) (Elem ''SUBNODES'' [] [], st, 0) = (subs, s2, cnt)"
      by (cases "process_child_nodes env (findall ''NODE'' root_node) (Elem ''SUBNODES'' [] [], st, 0)") auto
    have "tracks s2 = tracks st"
      using playlist_tracks_kept(2) [of env "findall ''NODE'' root_node" "(Elem ''SUBNODES'' [] [], st, 0)"] loop
      by simp
    with \<open>find_first ''PLAYLISTS'' doc = Some playlists\<close> Some loop assms show ?thesis
      by (intro exI [of _ "[last (children root')]"])
         (auto simp: process_playlists_def playlists_section_def SubElement_def)
  qed
qed


lemma convert_shape:
  assumes "convert_xml_to_nml env doc st = Inr (out, st')"
  shows "\<exists>es. findall ''COLLECTION'' out
             = [Elem ''COLLECTION'' [(''ENTRIES'', str_int (int (length (findall_desc ''TRACK'' doc))))] es]
           \<and> length es = length (findall_desc ''TRACK'' doc)
           \<and> tracks st' = map (file_path_of env) (findall_desc ''TRACK'' doc)"
proof -
  let ?entries = "findall_desc ''TRACK'' doc"
  let ?root = "add_head (Elem ''NML'' [(''VERSION'', ''20'')] [])"
  from assms obtain coll st1 root' where
    loop: "process_tracks_loop env ?entries (add_collection ?entries)
             (st\<lparr>tracks := [], track_id_map := Map.empty\<rparr>) = Inr (coll, st1)"
    and pl: "process_playlists env doc (add_sets (SubElement ?root coll)) st1 = (root', st')"
    and out: "out = add_indexing root'"
    by (auto simp: convert_xml_to_nml_def Let_def split: sum.splits prod.splits)
  from tracks_loop [OF loop] obtain es where
    coll: "coll = Elem ''COLLECTION'' [(''ENTRIES'', str_int (int (length ?entries)))] es"
    and len: "length es = length ?entries"
    and tr: "tracks st1 = map (file_path_of env) ?entries"
    by (auto simp: add_collection_def)
  from process_playlists_shape [OF pl] obtain added where
    root': "root' = Elem (tag (add_sets (SubElement ?root coll))) (attribs (add_sets (SubElement ?root coll)))
                      (children (add_sets (SubElement ?root coll)) @ added)"
    and tags: "\<forall>a \<in> set added. tag a = ''PLAYLISTS''" and tr': "tracks st' = tracks st1"
    by blast
  have "filter (\<lambda>c. tag c = ''COLLECTION'') added = []"
    using tags by (auto simp: filter_empty_conv)
  then have "findall ''COLLECTION'' out = [coll]"
    by (simp add: out root' findall_def add_indexing_def add_sets_def add_head_def coll)
  with coll len tr tr' show ?thesis by simp
qed

text \<open>
  C1, on the code. \<^verbatim>\<open>root.findall(".//TRACK")\<close> matches every \<^verbatim>\<open>TRACK\<close> element of the
  document, so on the scenario document it yields the collection track and also the
  playlist's reference to it. The conversion returns, and its output has one
  \<^verbatim>\<open>COLLECTION\<close> element with \<^verbatim>\<open>ENTRIES\<close> 2 and two entries; the second is built
  from the reference, which has no attribute but \<^verbatim>\<open>Key\<close>, and its path is also added
  to the track list.
\<close>

theorem scenario_collection_has_two_entries:
  "\<exists>out st es. convert_xml_to_nml sample_env scenario_doc new_converter = Inr (out, st)
      \<and> findall ''COLLECTION'' out = [Elem ''COLLECTION'' [(''ENTRIES'', ''2'')] es]
      \<and> length es = 2
      \<and> tracks st = [''disk/:a.mp3'', ''disk/:'']"
proof -
  let ?entries = "findall_desc ''TRACK'' scenario_doc"
  have plain: "\<forall>t \<in> set ?entries. findall ''TEMPO'' t = [] \<and> findall ''POSITION_MARK'' t = []"
    by (simp add: scenario_entries findall_def scenario_track_def)
  from plain_tracks_loop [OF plain sample_float_to_int] obtain c s where
    "process_tracks_loop sample_env ?entries (add_collection ?entries)
       (new_converter\<lparr>tracks := [], track_id_map := Map.empty\<rparr>) = Inr (c, s)"
    by blast
  then have "\<exists>out st. convert_xml_to_nml sample_env scenario_doc new_converter = Inr (out, st)"
    by (simp add: convert_xml_to_nml_def Let_def split: prod.splits)
  then obtain out st where run: "convert_xml_to_nml sample_env scenario_doc new_converter = Inr (out, st)"
    by blast
  have two: "str_int (int (length ?entries)) = ''2''"
    by (simp add: scenario_entries str_int_def str_nat.simps digit_char_def)
  have paths: "map (file_path_of sample_env) ?entries = [''disk/:a.mp3'', ''disk/:'']"
    by (simp add: scenario_entries file_path_of_def sample_env_def get_attribute_def scenario_track_def or_str_def)
  from convert_shape [OF run] obtain es where
    "findall ''COLLECTION'' out = [Elem ''COLLECTION'' [(''ENTRIES'', ''2'')] es]"
    and "length es = 2" and "tracks st = [''disk/:a.mp3'', ''disk/:'']"
    unfolding two paths by (auto simp: scenario_entries)
  with run show ?thesis by blast
qed


end
